theory Spec2Isabelle
  imports Complex_Main
begin

section \<open>Data model of gopro2gpx.py\<close>

text \<open>
  Numbers. The source divides with \<^verbatim>\<open>float(x) / float(y)\<close>. The model computes with exact
  rationals: the rounding of binary floating point is not modelled, the exception of a
  division by zero is.

  Time. A \<^verbatim>\<open>datetime\<close> is the number of microseconds since a fixed origin, which is the
  resolution of Python's \<^verbatim>\<open>datetime\<close>; the range check of \<^verbatim>\<open>datetime\<close> addition (year 9999)
  is not modelled.
\<close>

type_synonym datetime = int

datatype error =
    ZeroDivisionError     \<comment> \<open>\<^verbatim>\<open>float(x) / float(y)\<close> with \<^verbatim>\<open>y == 0\<close>\<close>
  | TypeError_float       \<comment> \<open>\<^verbatim>\<open>float(SCAL)\<close> of a tuple\<close>
  | TypeError_list        \<comment> \<open>\<^verbatim>\<open>list(SCAL)\<close> of a number\<close>
  | TypeError_make        \<comment> \<open>\<^verbatim>\<open>_make\<close> of a named tuple with the wrong number of values\<close>
  | TypeError_None_add    \<comment> \<open>\<^verbatim>\<open>None + timedelta\<close>\<close>
  | IndexError            \<comment> \<open>\<^verbatim>\<open>data[0]\<close>, \<^verbatim>\<open>data[1]\<close> out of range\<close>
  | KeyError              \<comment> \<open>\<^verbatim>\<open>xlate[d.data]\<close> with an unknown key\<close>
  | AttributeError        \<comment> \<open>\<^verbatim>\<open>datetime.fromtimestamp\<close> on the module \<^verbatim>\<open>datetime\<close>\<close>

text \<open>
  The payload of a \<^verbatim>\<open>SCAL\<close> record is used by the source both as a number
  (\<^verbatim>\<open>float(SCAL)\<close> in the single-channel extractors) and as a sequence (\<^verbatim>\<open>list(SCAL)\<close> in
  the point builder), so it is either.
\<close>

datatype scal = Num rat | Vec "rat list"

text \<open>
  The named tuples of module \<^verbatim>\<open>fourCC\<close>, which is not among the sources.
  Modelled from the spec: \<^verbatim>\<open>GPSData\<close> is the layout of a \<^verbatim>\<open>GPS5\<close> sample, the 5-tuple
  lat/lon/alt/speed2d/speed3d; the builder reads the fields \<^verbatim>\<open>lat\<close>, \<^verbatim>\<open>lon\<close>, \<^verbatim>\<open>alt\<close> and
  \<^verbatim>\<open>speed\<close>. \<^verbatim>\<open>SYSTData\<close> has the two fields the builder constructs it with and reads.
\<close>

record GPSData =
  lat :: rat
  lon :: rat
  alt :: rat
  speed :: rat
  speed3d :: rat

record SYSTData =
  seconds :: rat
  miliseconds :: rat

text \<open>
  \<^verbatim>\<open>KARMAGPSData\<close>, the layout of a \<^verbatim>\<open>GPRI\<close> payload, is declared in \<^verbatim>\<open>fourCC\<close> too and its
  field list is unknown. A payload is represented by what the builder reads of it: the
  attributes \<^verbatim>\<open>lat\<close>, \<^verbatim>\<open>lon\<close>, \<^verbatim>\<open>alt\<close>, and \<^verbatim>\<open>_asdict().values()\<close>, the values of all its
  fields in declaration order (so the number of fields is the length of that list).
\<close>

record KARMAGPSData =
  k_lat :: rat
  k_lon :: rat
  k_alt :: rat
  k_values :: "rat list"

text \<open>\<^verbatim>\<open>gpshelper.GPSPoint(lat, lon, alt, time, speed)\<close>: the five constructor arguments.\<close>

record GPSPoint =
  p_lat :: rat
  p_lon :: rat
  p_alt :: rat
  p_time :: datetime
  p_speed :: rat

text \<open>One decoded record: the tag \<^verbatim>\<open>d.fourCC\<close> with its payload \<^verbatim>\<open>d.data\<close>.\<close>

datatype klv =
    Rec_SCAL scal
  | Rec_DVNM string
  | Rec_GPSU datetime
  | Rec_GPSF int
  | Rec_TSMP int
  | Rec_GPS5 "GPSData list"
  | Rec_SYST SYSTData
  | Rec_GPRI KARMAGPSData
  | Rec_CORI "rat list list"
  | Rec_GRAV "rat list list"
  | Rec_ACCL "rat list list"
  | Rec_other string

text \<open>The dictionary \<^verbatim>\<open>stats\<close> with its four keys.\<close>

record stats =
  stat_ok :: nat
  stat_badfix :: nat
  stat_badfixskip :: nat
  stat_empty :: nat

text \<open>What the builder prints, one value per \<^verbatim>\<open>print\<close>; the block of lines after the loop
  is one value holding the device name, the four counters and their total.\<close>

datatype msg =
    Warn_empty                 \<comment> \<open>\<^verbatim>\<open>Warning: Skipping empty point\<close>\<close>
  | Warn_badfix                \<comment> \<open>\<^verbatim>\<open>Warning: Skipping point due GPSFIX==0\<close>\<close>
  | Fix_change int string      \<comment> \<open>\<^verbatim>\<open>GPSFIX change to %s [%s]\<close>\<close>
  | Stats_report string nat nat nat nat nat

text \<open>The local variables of \<^verbatim>\<open>BuildGPSPoints\<close>, and the text printed so far.\<close>

record state =
  points :: "GPSPoint list"
  start_time :: "datetime option"
  SCAL :: scal
  GPSU :: "datetime option"
  SYST :: SYSTData
  stats :: stats
  GPSFIX :: int
  TSMP :: int
  DVNM :: string
  out :: "msg list"

section \<open>The single-channel extractors\<close>

text \<open>\<^verbatim>\<open>[x / float(SCAL) for x in item._asdict().values()]\<close>: \<^verbatim>\<open>float(SCAL)\<close> is evaluated
  once per value, so an item without values raises nothing.\<close>

definition scaled_data :: "scal \<Rightarrow> rat list \<Rightarrow> error + rat list" where
  "scaled_data S item =
     (if item = [] then Inr []
      else case S of
          Vec v \<Rightarrow> Inl TypeError_float
        | Num y \<Rightarrow> if y = 0 then Inl ZeroDivisionError else Inr (map (\<lambda>x. x / y) item))"

text \<open>\<^verbatim>\<open>for item in d.data: ... all_data.append(scaled_data)\<close>\<close>

fun append_items :: "scal \<Rightarrow> rat list list \<Rightarrow> rat list list \<Rightarrow> error + rat list list" where
  "append_items S [] all_data = Inr all_data"
| "append_items S (item # items) all_data =
     (case scaled_data S item of
        Inl e \<Rightarrow> Inl e
      | Inr row \<Rightarrow> append_items S items (all_data @ [row]))"

text \<open>The three extractors are the same loop up to the tag they select; \<open>sel\<close> gives the
  payload of a record of the requested tag.\<close>

fun Get_loop ::
  "(klv \<Rightarrow> rat list list option) \<Rightarrow> scal \<Rightarrow> klv list \<Rightarrow> rat list list \<Rightarrow> error + rat list list"
where
  "Get_loop sel S [] all_data = Inr all_data"
| "Get_loop sel S (d # ds) all_data =
     (let S' = (case d of Rec_SCAL v \<Rightarrow> v | _ \<Rightarrow> S) in
      case sel d of
        None \<Rightarrow> Get_loop sel S' ds all_data
      | Some items \<Rightarrow>
          (case append_items S' items all_data of
             Inl e \<Rightarrow> Inl e
           | Inr all_data' \<Rightarrow> Get_loop sel S' ds all_data'))"

fun sel_CORI :: "klv \<Rightarrow> rat list list option" where
  "sel_CORI (Rec_CORI items) = Some items"
| "sel_CORI _ = None"

fun sel_GRAV :: "klv \<Rightarrow> rat list list option" where
  "sel_GRAV (Rec_GRAV items) = Some items"
| "sel_GRAV _ = None"

fun sel_ACCL :: "klv \<Rightarrow> rat list list option" where
  "sel_ACCL (Rec_ACCL items) = Some items"
| "sel_ACCL _ = None"

definition GetCORIData :: "klv list \<Rightarrow> error + rat list list" where
  "GetCORIData data = Get_loop sel_CORI (Num 1) data []"

definition GetGRAVData :: "klv list \<Rightarrow> error + rat list list" where
  "GetGRAVData data = Get_loop sel_GRAV (Num 1) data []"

definition GetACCLData :: "klv list \<Rightarrow> error + rat list list" where
  "GetACCLData data = Get_loop sel_ACCL (Num 1) data []"

section \<open>The GPS point builder\<close>

text \<open>\<^verbatim>\<open>[float(x) / float(y) for x, y in zip(values, list(SCAL))]\<close>: \<^verbatim>\<open>zip\<close> stops at the
  shorter sequence.\<close>

fun divide_pairs :: "(rat \<times> rat) list \<Rightarrow> error + rat list" where
  "divide_pairs [] = Inr []"
| "divide_pairs ((x, y) # ps) =
     (if y = 0 then Inl ZeroDivisionError
      else case divide_pairs ps of
          Inl e \<Rightarrow> Inl e
        | Inr zs \<Rightarrow> Inr (x / y # zs))"

definition scale_values :: "rat list \<Rightarrow> scal \<Rightarrow> error + rat list" where
  "scale_values vals S =
     (case S of
        Num y \<Rightarrow> Inl TypeError_list
      | Vec ys \<Rightarrow> divide_pairs (zip vals ys))"

text \<open>\<^verbatim>\<open>item._asdict().values()\<close> of a \<^verbatim>\<open>GPS5\<close> sample and \<^verbatim>\<open>fourCC.GPSData._make\<close>, which
  raises unless it is given as many values as the tuple has fields.\<close>

definition GPSData_values :: "GPSData \<Rightarrow> rat list" where
  "GPSData_values item = [lat item, lon item, alt item, speed item, speed3d item]"

fun GPSData_make :: "rat list \<Rightarrow> error + GPSData" where
  "GPSData_make [a, b, c, d, e] = Inr \<lparr>lat = a, lon = b, alt = c, speed = d, speed3d = e\<rparr>"
| "GPSData_make _ = Inl TypeError_make"

text \<open>\<^verbatim>\<open>datetime.timedelta(seconds=x)\<close> in microseconds: Python rounds to the nearest
  microsecond, a tie to the even one.\<close>

definition round_half_even :: "rat \<Rightarrow> int" where
  "round_half_even q =
     (let f = \<lfloor>q\<rfloor>; r = q - of_int f in
      if r < 1 / 2 then f
      else if 1 / 2 < r then f + 1
      else if even f then f else f + 1)"

definition timedelta :: "rat \<Rightarrow> int" where
  "timedelta secs = round_half_even (secs * 1000000)"

definition t_delta :: rat where
  "t_delta = 1 / 18"

definition bump_empty :: "state \<Rightarrow> state" where
  "bump_empty s = s\<lparr>stats := (stats s)\<lparr>stat_empty := stat_empty (stats s) + 1\<rparr>\<rparr>"

definition bump_badfix :: "state \<Rightarrow> state" where
  "bump_badfix s = s\<lparr>stats := (stats s)\<lparr>stat_badfix := stat_badfix (stats s) + 1\<rparr>\<rparr>"

definition bump_badfixskip :: "state \<Rightarrow> state" where
  "bump_badfixskip s = s\<lparr>stats := (stats s)\<lparr>stat_badfixskip := stat_badfixskip (stats s) + 1\<rparr>\<rparr>"

definition bump_ok :: "state \<Rightarrow> state" where
  "bump_ok s = s\<lparr>stats := (stats s)\<lparr>stat_ok := stat_ok (stats s) + 1\<rparr>\<rparr>"

definition print :: "msg \<Rightarrow> state \<Rightarrow> state" where
  "print m s = s\<lparr>out := out s @ [m]\<rparr>"

text \<open>The body of \<^verbatim>\<open>for item in d.data\<close> of the \<^verbatim>\<open>GPS5\<close> branch (lines 132 to 158).
  \<open>sample_count\<close> is the loop's counter; both \<^verbatim>\<open>continue\<close> statements leave it as it is.\<close>

definition GPS5_item :: "bool \<Rightarrow> GPSData \<Rightarrow> state \<Rightarrow> nat \<Rightarrow> error + state \<times> nat" where
  "GPS5_item skip item s sample_count =
     (if lon item = lat item \<and> lat item = alt item \<and> alt item = 0 then
        Inr (bump_empty (print Warn_empty s), sample_count)
      else
        let s1 = (if GPSFIX s = 0 then bump_badfix s else s) in
        if GPSFIX s = 0 \<and> skip then
          Inr (bump_badfixskip (print Warn_badfix s1), sample_count)
        else
          case scale_values (GPSData_values item) (SCAL s1) of
            Inl e \<Rightarrow> Inl e
          | Inr retdata \<Rightarrow>
              (case GPSData_make retdata of
                 Inl e \<Rightarrow> Inl e
               | Inr gpsdata \<Rightarrow>
                   (case GPSU s1 of
                      None \<Rightarrow> Inl TypeError_None_add
                    | Some anchor \<Rightarrow>
                        let p = \<lparr>p_lat = lat gpsdata, p_lon = lon gpsdata, p_alt = alt gpsdata,
                                 p_time = anchor + timedelta (of_nat sample_count * t_delta),
                                 p_speed = speed gpsdata\<rparr>
                        in Inr (bump_ok (s1\<lparr>points := points s1 @ [p]\<rparr>), sample_count + 1))))"

fun GPS5_loop :: "bool \<Rightarrow> GPSData list \<Rightarrow> state \<Rightarrow> nat \<Rightarrow> error + state" where
  "GPS5_loop skip [] s sample_count = Inr s"
| "GPS5_loop skip (item # items) s sample_count =
     (case GPS5_item skip item s sample_count of
        Inl e \<Rightarrow> Inl e
      | Inr (s', sample_count') \<Rightarrow> GPS5_loop skip items s' sample_count')"

text \<open>The \<^verbatim>\<open>SYST\<close> branch (lines 160 to 163). \<^verbatim>\<open>data[0] != 0 and data[1] != 0\<close> reads
  \<^verbatim>\<open>data[1]\<close> only when \<^verbatim>\<open>data[0]\<close> is not zero.\<close>

definition SYST_record :: "SYSTData \<Rightarrow> state \<Rightarrow> error + state" where
  "SYST_record d s =
     (case scale_values [seconds d, miliseconds d] (SCAL s) of
        Inl e \<Rightarrow> Inl e
      | Inr data \<Rightarrow>
          (case data of
             [] \<Rightarrow> Inl IndexError
           | a # rest \<Rightarrow>
               if a = 0 then Inr s
               else (case rest of
                       [] \<Rightarrow> Inl IndexError
                     | b # rest' \<Rightarrow>
                         if b \<noteq> 0 then Inr (s\<lparr>SYST := \<lparr>seconds = a, miliseconds = b\<rparr>\<rparr>)
                         else Inr s)))"

text \<open>The \<^verbatim>\<open>GPRI\<close> branch (lines 165 to 189). The module is imported as
  \<^verbatim>\<open>import datetime\<close>, so the argument \<^verbatim>\<open>datetime.fromtimestamp(SYST.miliseconds)\<close> of the
  point's constructor raises \<^verbatim>\<open>AttributeError\<close>: the module has no such attribute (the
  class \<^verbatim>\<open>datetime.datetime\<close> has). The line \<^verbatim>\<open>print("XX", ...)\<close> before it is not kept,
  since what was printed is dropped from the result of a run that raises.\<close>

definition GPRI_record :: "bool \<Rightarrow> KARMAGPSData \<Rightarrow> state \<Rightarrow> error + state" where
  "GPRI_record skip d s =
     (if k_lon d = k_lat d \<and> k_lat d = k_alt d \<and> k_alt d = 0 then
        Inr (bump_empty (print Warn_empty s))
      else
        let s1 = (if GPSFIX s = 0 then bump_badfix s else s) in
        if GPSFIX s = 0 \<and> skip then
          Inr (bump_badfixskip (print Warn_badfix s1))
        else
          case scale_values (k_values d) (SCAL s1) of
            Inl e \<Rightarrow> Inl e
          | Inr data \<Rightarrow>
              if length data \<noteq> length (k_values d) then Inl TypeError_make
              else if seconds (SYST s1) \<noteq> 0 \<and> miliseconds (SYST s1) \<noteq> 0 then
                Inl AttributeError
              else Inr s1)"

text \<open>The \<^verbatim>\<open>GPSF\<close> branch (lines 115 to 118). \<open>xlate\<close> is the table
  \<^verbatim>\<open>fourCC.LabelGPSF.xlate\<close>, which is not among the sources: a parameter.\<close>

definition GPSF_record :: "(int \<Rightarrow> string option) \<Rightarrow> int \<Rightarrow> state \<Rightarrow> error + state" where
  "GPSF_record xlate v s =
     (if v \<noteq> GPSFIX s then
        (case xlate v of
           None \<Rightarrow> Inl KeyError
         | Some label \<Rightarrow> Inr ((print (Fix_change v label) s)\<lparr>GPSFIX := v\<rparr>))
      else Inr (s\<lparr>GPSFIX := v\<rparr>))"

text \<open>One iteration of \<^verbatim>\<open>for d in data\<close> (lines 106 to 189).\<close>

fun step :: "(int \<Rightarrow> string option) \<Rightarrow> bool \<Rightarrow> state \<Rightarrow> klv \<Rightarrow> error + state" where
  "step xlate skip s (Rec_SCAL v) = Inr (s\<lparr>SCAL := v\<rparr>)"
| "step xlate skip s (Rec_DVNM v) = Inr (s\<lparr>DVNM := v\<rparr>)"
| "step xlate skip s (Rec_GPSU v) =
     Inr (s\<lparr>GPSU := Some v,
            start_time := (if start_time s = None then Some v else start_time s)\<rparr>)"
| "step xlate skip s (Rec_GPSF v) = GPSF_record xlate v s"
| "step xlate skip s (Rec_TSMP v) =
     Inr (s\<lparr>TSMP := (if TSMP s = 0 then v else v - TSMP s)\<rparr>)"
| "step xlate skip s (Rec_GPS5 items) = GPS5_loop skip items s 0"
| "step xlate skip s (Rec_SYST d) = SYST_record d s"
| "step xlate skip s (Rec_GPRI d) = GPRI_record skip d s"
| "step xlate skip s (Rec_CORI v) = Inr s"
| "step xlate skip s (Rec_GRAV v) = Inr s"
| "step xlate skip s (Rec_ACCL v) = Inr s"
| "step xlate skip s (Rec_other v) = Inr s"

fun run :: "(int \<Rightarrow> string option) \<Rightarrow> bool \<Rightarrow> state \<Rightarrow> klv list \<Rightarrow> error + state" where
  "run xlate skip s [] = Inr s"
| "run xlate skip s (d # ds) =
     (case step xlate skip s d of
        Inl e \<Rightarrow> Inl e
      | Inr s' \<Rightarrow> run xlate skip s' ds)"

text \<open>The initial values of the local variables (lines 95 to 105).\<close>

definition init :: state where
  "init = \<lparr>points = [], start_time = None, SCAL = Vec [1, 1, 1], GPSU = None,
           SYST = \<lparr>seconds = 0, miliseconds = 0\<rparr>,
           stats = \<lparr>stat_ok = 0, stat_badfix = 0, stat_badfixskip = 0, stat_empty = 0\<rparr>,
           GPSFIX = 0, TSMP = 0, DVNM = ''Unknown'', out = []\<rparr>"

text \<open>The lines printed after the loop (lines 191 to 200).\<close>

definition stats_report :: "state \<Rightarrow> msg" where
  "stats_report s =
     Stats_report (DVNM s) (stat_ok (stats s)) (stat_badfix (stats s))
       (stat_badfixskip (stats s)) (stat_empty (stats s))
       (stat_ok (stats s) + stat_badfix (stats s) + stat_badfixskip (stats s)
          + stat_empty (stats s))"

text \<open>\<^verbatim>\<open>BuildGPSPoints(data, skip)\<close>: an uncaught exception, or the returned tuple
  \<^verbatim>\<open>(points, start_time, DVNM)\<close> paired with everything that was printed.\<close>

definition BuildGPSPoints ::
  "(int \<Rightarrow> string option) \<Rightarrow> klv list \<Rightarrow> bool
     \<Rightarrow> error + (GPSPoint list \<times> datetime option \<times> string) \<times> msg list"
where
  "BuildGPSPoints xlate data skip =
     (case run xlate skip init data of
        Inl e \<Rightarrow> Inl e
      | Inr s \<Rightarrow> Inr ((points s, start_time s, DVNM s), out s @ [stats_report s]))"

section \<open>The dispatch of \<^verbatim>\<open>main_core\<close>\<close>

text \<open>What \<^verbatim>\<open>main_core\<close> does with the decoded records (lines 242 to 268): it writes a CSV
  file of rows, or it exits with status 0 after the message that there is no GPS
  information, or it hands points, start time and device name to the KML and GPX
  generators of \<^verbatim>\<open>gpshelper\<close> (not among the sources), or an exception escapes.\<close>

datatype outcome =
    Uncaught error
  | Write_csv "rat list list"
  | Exit_0
  | Write_kml_gpx "GPSPoint list" "datetime option" string

definition of_rows :: "error + rat list list \<Rightarrow> outcome" where
  "of_rows r = (case r of Inl e \<Rightarrow> Uncaught e | Inr rows \<Rightarrow> Write_csv rows)"

definition main_core ::
  "(int \<Rightarrow> string option) \<Rightarrow> string option \<Rightarrow> bool \<Rightarrow> klv list \<Rightarrow> outcome" where
  "main_core xlate fourcc_type skip data =
     (if fourcc_type = Some ''GRAV'' then of_rows (GetGRAVData data)
      else if fourcc_type = Some ''CORI'' then of_rows (GetCORIData data)
      else if fourcc_type = Some ''ACCL'' then of_rows (GetACCLData data)
      else
        case BuildGPSPoints xlate data skip of
          Inl e \<Rightarrow> Uncaught e
        | Inr ((points', start_time', device_name), printed) \<Rightarrow>
            if length points' = 0 then Exit_0
            else Write_kml_gpx points' start_time' device_name)"

section \<open>Definitions used to state the properties\<close>

text \<open>The point the \<^verbatim>\<open>GPS5\<close> branch builds from a sample, a scale vector \<open>ys\<close> of at least
  five components, the anchor and the value \<open>k\<close> of \<^verbatim>\<open>sample_count\<close>.\<close>

definition accepted_point :: "GPSData \<Rightarrow> rat list \<Rightarrow> datetime \<Rightarrow> nat \<Rightarrow> GPSPoint" where
  "accepted_point item ys anchor k =
     \<lparr>p_lat = lat item / ys ! 0, p_lon = lon item / ys ! 1, p_alt = alt item / ys ! 2,
      p_time = anchor + timedelta (of_nat k * t_delta), p_speed = speed item / ys ! 3\<rparr>"

text \<open>Concrete inputs of the closed theorems: a table of fix labels, samples, payloads.\<close>

definition xlate_example :: "int \<Rightarrow> string option" where
  "xlate_example = [0 \<mapsto> ''no lock'', 2 \<mapsto> ''2D lock'', 3 \<mapsto> ''3D lock'']"

definition sample_zero :: GPSData where
  "sample_zero = \<lparr>lat = 0, lon = 0, alt = 0, speed = 40, speed3d = 50\<rparr>"

definition sample_raw :: GPSData where
  "sample_raw = \<lparr>lat = 100, lon = 200, alt = 300, speed = 40, speed3d = 50\<rparr>"

definition gpri_zero :: KARMAGPSData where
  "gpri_zero = \<lparr>k_lat = 0, k_lon = 0, k_alt = 0, k_values = [7, 0, 0, 0, 5]\<rparr>"

text \<open>The session start time and the device name as the spec words them: the payload of the
  first \<^verbatim>\<open>GPSU\<close> record, and of the last \<^verbatim>\<open>DVNM\<close> record (\<open>dv\<close> when there is none).\<close>

fun first_GPSU :: "klv list \<Rightarrow> datetime option" where
  "first_GPSU [] = None"
| "first_GPSU (Rec_GPSU v # ds) = Some v"
| "first_GPSU (d # ds) = first_GPSU ds"

fun last_DVNM :: "string \<Rightarrow> klv list \<Rightarrow> string" where
  "last_DVNM dv [] = dv"
| "last_DVNM dv (Rec_DVNM v # ds) = last_DVNM v ds"
| "last_DVNM dv (d # ds) = last_DVNM dv ds"

text \<open>Tags of records.\<close>

fun is_TSMP :: "klv \<Rightarrow> bool" where
  "is_TSMP (Rec_TSMP v) = True"
| "is_TSMP d = False"

fun is_GPS5 :: "klv \<Rightarrow> bool" where
  "is_GPS5 (Rec_GPS5 v) = True"
| "is_GPS5 d = False"

fun is_GPRI :: "klv \<Rightarrow> bool" where
  "is_GPRI (Rec_GPRI v) = True"
| "is_GPRI d = False"

fun is_SYST :: "klv \<Rightarrow> bool" where
  "is_SYST (Rec_SYST v) = True"
| "is_SYST d = False"

text \<open>A record is not a \<^verbatim>\<open>GPSF\<close> record with a code that the table of labels lacks.\<close>

fun GPSF_known :: "(int \<Rightarrow> string option) \<Rightarrow> klv \<Rightarrow> bool" where
  "GPSF_known xlate (Rec_GPSF v) = (xlate v \<noteq> None)"
| "GPSF_known xlate d = True"

text \<open>The payloads of the \<^verbatim>\<open>TSMP\<close> records in order, and the update of the \<^verbatim>\<open>TSMP\<close> slot by one
  of them: stored as it is while the slot holds 0, else the slot is subtracted from it.\<close>

fun TSMP_values :: "klv list \<Rightarrow> int list" where
  "TSMP_values [] = []"
| "TSMP_values (Rec_TSMP v # ds) = v # TSMP_values ds"
| "TSMP_values (d # ds) = TSMP_values ds"

definition TSMP_next :: "int \<Rightarrow> int \<Rightarrow> int" where
  "TSMP_next slot v = (if slot = 0 then v else v - slot)"

text \<open>The rows of a single-channel extraction as the spec words them: one row per decoded
  tuple of the requested tag, in input order, each component divided by the most recent
  \<^verbatim>\<open>SCAL\<close> value that precedes the record, by 1 if there is none. A \<^verbatim>\<open>SCAL\<close> value that
  is a tuple is no number to divide by; it counts as 0.\<close>

fun SCAL_values :: "klv list \<Rightarrow> scal list" where
  "SCAL_values [] = []"
| "SCAL_values (Rec_SCAL v # ds) = v # SCAL_values ds"
| "SCAL_values (d # ds) = SCAL_values ds"

definition most_recent_SCAL :: "klv list \<Rightarrow> scal" where
  "most_recent_SCAL preceding =
     (if SCAL_values preceding = [] then Num 1 else last (SCAL_values preceding))"

fun SCAL_number :: "scal \<Rightarrow> rat" where
  "SCAL_number (Num y) = y"
| "SCAL_number (Vec v) = 0"

definition expected_rows :: "(klv \<Rightarrow> rat list list option) \<Rightarrow> klv list \<Rightarrow> rat list list" where
  "expected_rows sel data =
     concat (map (\<lambda>i. case sel (data ! i) of
                         None \<Rightarrow> []
                       | Some items \<Rightarrow>
                           map (map (\<lambda>x. x / SCAL_number (most_recent_SCAL (take i data)))) items)
                 [0..<length data])"

text \<open>Every division of the extraction is possible: wherever a record of the requested tag
  holds a tuple with at least one component, the most recent \<^verbatim>\<open>SCAL\<close> value that precedes the
  record is a number other than 0.\<close>

definition divisors_usable :: "(klv \<Rightarrow> rat list list option) \<Rightarrow> klv list \<Rightarrow> bool" where
  "divisors_usable sel data =
     (\<forall>i \<in> set [0..<length data].
        case sel (data ! i) of
          None \<Rightarrow> True
        | Some items \<Rightarrow>
            (\<forall>item \<in> set items.
               item \<noteq> [] \<longrightarrow> SCAL_number (most_recent_SCAL (take i data)) \<noteq> 0))"

text \<open>The value of the variable \<^verbatim>\<open>SCAL\<close>, of an extractor or of the builder, after the
  records \<open>ds\<close>: the payload of the last \<^verbatim>\<open>SCAL\<close> record, \<open>S\<close> when there is none.\<close>

fun current_SCAL :: "scal \<Rightarrow> klv list \<Rightarrow> scal" where
  "current_SCAL S [] = S"
| "current_SCAL S (Rec_SCAL v # ds) = current_SCAL v ds"
| "current_SCAL S (d # ds) = current_SCAL S ds"

definition gpri_raw :: KARMAGPSData where
  "gpri_raw = \<lparr>k_lat = 100, k_lon = 200, k_alt = 300, k_values = [9, 100, 200, 300, 40]\<rparr>"

text \<open>A \<^verbatim>\<open>GPS5\<close> sample, and a \<^verbatim>\<open>GPRI\<close> payload, whose latitude, longitude and altitude are
  all exactly zero.\<close>

definition all_zero :: "GPSData \<Rightarrow> bool" where
  "all_zero item = (lat item = 0 \<and> lon item = 0 \<and> alt item = 0)"

definition k_all_zero :: "KARMAGPSData \<Rightarrow> bool" where
  "k_all_zero d = (k_lat d = 0 \<and> k_lon d = 0 \<and> k_alt d = 0)"

fun is_GPSU :: "klv \<Rightarrow> bool" where
  "is_GPSU (Rec_GPSU v) = True"
| "is_GPSU d = False"

text \<open>The fix-quality code and the timestamp anchor that are current after the records
  \<open>ds\<close>: the payload of the last \<^verbatim>\<open>GPSF\<close> record and of the last \<^verbatim>\<open>GPSU\<close> record of \<open>ds\<close>, the
  given value when \<open>ds\<close> has no such record. (The current scale vector is \<open>current_SCAL\<close>.)\<close>

fun current_GPSF :: "int \<Rightarrow> klv list \<Rightarrow> int" where
  "current_GPSF fixq [] = fixq"
| "current_GPSF fixq (Rec_GPSF v # ds) = current_GPSF v ds"
| "current_GPSF fixq (d # ds) = current_GPSF fixq ds"

fun current_GPSU :: "datetime option \<Rightarrow> klv list \<Rightarrow> datetime option" where
  "current_GPSU anchor [] = anchor"
| "current_GPSU anchor (Rec_GPSU v # ds) = current_GPSU (Some v) ds"
| "current_GPSU anchor (d # ds) = current_GPSU anchor ds"

text \<open>Counts over a record sequence. The \<^verbatim>\<open>GPS5\<close> samples and \<^verbatim>\<open>GPRI\<close> records that are all
  zero, and those that are not. Of the latter, those met while the fix-quality code is 0
  (\<open>fixq\<close> is the code before the first record), and the \<^verbatim>\<open>GPS5\<close> samples that pass both
  filters: not all zero, and not met with the code 0 while the skip policy is enabled.\<close>

fun count_empty :: "klv list \<Rightarrow> nat" where
  "count_empty [] = 0"
| "count_empty (Rec_GPS5 items # ds) = length (filter all_zero items) + count_empty ds"
| "count_empty (Rec_GPRI d # ds) = (if k_all_zero d then 1 else 0) + count_empty ds"
| "count_empty (d # ds) = count_empty ds"

fun count_nonzero :: "klv list \<Rightarrow> nat" where
  "count_nonzero [] = 0"
| "count_nonzero (Rec_GPS5 items # ds) =
     length (filter (\<lambda>item. \<not> all_zero item) items) + count_nonzero ds"
| "count_nonzero (Rec_GPRI d # ds) = (if k_all_zero d then 0 else 1) + count_nonzero ds"
| "count_nonzero (d # ds) = count_nonzero ds"

fun count_badfix :: "int \<Rightarrow> klv list \<Rightarrow> nat" where
  "count_badfix fixq [] = 0"
| "count_badfix fixq (Rec_GPSF v # ds) = count_badfix v ds"
| "count_badfix fixq (Rec_GPS5 items # ds) =
     (if fixq = 0 then length (filter (\<lambda>item. \<not> all_zero item) items) else 0)
       + count_badfix fixq ds"
| "count_badfix fixq (Rec_GPRI d # ds) =
     (if fixq = 0 \<and> \<not> k_all_zero d then 1 else 0) + count_badfix fixq ds"
| "count_badfix fixq (d # ds) = count_badfix fixq ds"

fun count_kept :: "bool \<Rightarrow> int \<Rightarrow> klv list \<Rightarrow> nat" where
  "count_kept skip fixq [] = 0"
| "count_kept skip fixq (Rec_GPSF v # ds) = count_kept skip v ds"
| "count_kept skip fixq (Rec_GPS5 items # ds) =
     (if fixq = 0 \<and> skip then 0 else length (filter (\<lambda>item. \<not> all_zero item) items))
       + count_kept skip fixq ds"
| "count_kept skip fixq (d # ds) = count_kept skip fixq ds"

text \<open>No \<^verbatim>\<open>GPS5\<close> sample of the records passes both filters.\<close>

fun no_sample_passes :: "bool \<Rightarrow> int \<Rightarrow> klv list \<Rightarrow> bool" where
  "no_sample_passes skip fixq [] = True"
| "no_sample_passes skip fixq (Rec_GPSF v # ds) = no_sample_passes skip v ds"
| "no_sample_passes skip fixq (Rec_GPS5 items # ds) =
     ((\<forall>item \<in> set items. all_zero item \<or> (fixq = 0 \<and> skip)) \<and> no_sample_passes skip fixq ds)"
| "no_sample_passes skip fixq (d # ds) = no_sample_passes skip fixq ds"

section \<open>Auxiliary facts\<close>

lemma divide_pairs_ok:
  "\<forall>p \<in> set ps. snd p \<noteq> 0 \<Longrightarrow> divide_pairs ps = Inr (map (\<lambda>p. fst p / snd p) ps)"
  by (induction ps) auto

lemma divide_pairs_length:
  "divide_pairs ps = Inr zs \<Longrightarrow> length zs = length ps"
  by (induction ps arbitrary: zs) (auto split: if_splits sum.splits)

lemma bump_points [simp]:
  "points (bump_empty s) = points s" "points (bump_badfix s) = points s"
  "points (bump_badfixskip s) = points s" "points (bump_ok s) = points s"
  "points (print m s) = points s"
  by (simp_all add: bump_empty_def bump_badfix_def bump_badfixskip_def bump_ok_def print_def)

lemma bump_out [simp]:
  "out (bump_empty s) = out s" "out (bump_badfix s) = out s"
  "out (bump_badfixskip s) = out s" "out (bump_ok s) = out s"
  "out (print m s) = out s @ [m]"
  by (simp_all add: bump_empty_def bump_badfix_def bump_badfixskip_def bump_ok_def print_def)

lemma bump_stats [simp]:
  "stats (bump_empty s) = (stats s)\<lparr>stat_empty := stat_empty (stats s) + 1\<rparr>"
  "stats (bump_badfix s) = (stats s)\<lparr>stat_badfix := stat_badfix (stats s) + 1\<rparr>"
  "stats (bump_badfixskip s) = (stats s)\<lparr>stat_badfixskip := stat_badfixskip (stats s) + 1\<rparr>"
  "stats (bump_ok s) = (stats s)\<lparr>stat_ok := stat_ok (stats s) + 1\<rparr>"
  "stats (print m s) = stats s"
  by (simp_all add: bump_empty_def bump_badfix_def bump_badfixskip_def bump_ok_def print_def)

lemma bump_GPSU [simp]:
  "GPSU (bump_empty s) = GPSU s" "GPSU (bump_badfix s) = GPSU s"
  "GPSU (bump_badfixskip s) = GPSU s" "GPSU (bump_ok s) = GPSU s" "GPSU (print m s) = GPSU s"
  by (simp_all add: bump_empty_def bump_badfix_def bump_badfixskip_def bump_ok_def print_def)

lemma bump_SCAL [simp]:
  "SCAL (bump_empty s) = SCAL s" "SCAL (bump_badfix s) = SCAL s"
  "SCAL (bump_badfixskip s) = SCAL s" "SCAL (bump_ok s) = SCAL s" "SCAL (print m s) = SCAL s"
  by (simp_all add: bump_empty_def bump_badfix_def bump_badfixskip_def bump_ok_def print_def)

lemma bump_GPSFIX [simp]:
  "GPSFIX (bump_empty s) = GPSFIX s" "GPSFIX (bump_badfix s) = GPSFIX s"
  "GPSFIX (bump_badfixskip s) = GPSFIX s" "GPSFIX (bump_ok s) = GPSFIX s"
  "GPSFIX (print m s) = GPSFIX s"
  by (simp_all add: bump_empty_def bump_badfix_def bump_badfixskip_def bump_ok_def print_def)

lemma bump_SYST [simp]:
  "SYST (bump_empty s) = SYST s" "SYST (bump_badfix s) = SYST s"
  "SYST (bump_badfixskip s) = SYST s" "SYST (bump_ok s) = SYST s" "SYST (print m s) = SYST s"
  by (simp_all add: bump_empty_def bump_badfix_def bump_badfixskip_def bump_ok_def print_def)

lemma bump_start_time [simp]:
  "start_time (bump_empty s) = start_time s" "start_time (bump_badfix s) = start_time s"
  "start_time (bump_badfixskip s) = start_time s" "start_time (bump_ok s) = start_time s"
  "start_time (print m s) = start_time s"
  by (simp_all add: bump_empty_def bump_badfix_def bump_badfixskip_def bump_ok_def print_def)

lemma bump_DVNM [simp]:
  "DVNM (bump_empty s) = DVNM s" "DVNM (bump_badfix s) = DVNM s"
  "DVNM (bump_badfixskip s) = DVNM s" "DVNM (bump_ok s) = DVNM s" "DVNM (print m s) = DVNM s"
  by (simp_all add: bump_empty_def bump_badfix_def bump_badfixskip_def bump_ok_def print_def)

lemma bump_TSMP [simp]:
  "TSMP (bump_empty s) = TSMP s" "TSMP (bump_badfix s) = TSMP s"
  "TSMP (bump_badfixskip s) = TSMP s" "TSMP (bump_ok s) = TSMP s" "TSMP (print m s) = TSMP s"
  by (simp_all add: bump_empty_def bump_badfix_def bump_badfixskip_def bump_ok_def print_def)

lemma length_ge5D:
  "5 \<le> length (ys::'a list) \<Longrightarrow> \<exists>y0 y1 y2 y3 y4 rest. ys = y0 # y1 # y2 # y3 # y4 # rest"
  by (auto simp: eval_nat_numeral Suc_le_length_iff)

text \<open>A sample that passes both filters, with an anchor and a scale vector of at least five
  non-zero components: the point is appended and the counter advances.\<close>

lemma GPS5_item_accept:
  assumes "\<not> (lon item = lat item \<and> lat item = alt item \<and> alt item = 0)"
    and "\<not> (GPSFIX s = 0 \<and> skip)"
    and "SCAL s = Vec ys" "5 \<le> length ys" "\<forall>y \<in> set (take 5 ys). y \<noteq> 0"
    and "GPSU s = Some anchor"
  shows "GPS5_item skip item s n =
    Inr (bump_ok ((if GPSFIX s = 0 then bump_badfix s else s)
           \<lparr>points := points s @ [accepted_point item ys anchor n]\<rparr>), n + 1)"
proof -
  obtain y0 y1 y2 y3 y4 rest where ys: "ys = y0 # y1 # y2 # y3 # y4 # rest"
    using length_ge5D[OF assms(4)] by blast
  with assms(5) have nz: "y0 \<noteq> 0" "y1 \<noteq> 0" "y2 \<noteq> 0" "y3 \<noteq> 0" "y4 \<noteq> 0"
    by simp_all
  show ?thesis using assms(1,2,3,6) ys nz
    by (simp add: GPS5_item_def scale_values_def GPSData_values_def accepted_point_def Let_def)
qed

text \<open>Whatever a sample does without raising, it appends at most one point, and exactly one
  when it advances the counter.\<close>

lemma GPS5_item_Inr:
  assumes "GPS5_item skip item s n = Inr (s', n')"
  shows "(n' = n \<and> points s' = points s) \<or> (n' = n + 1 \<and> (\<exists>p. points s' = points s @ [p]))"
  using assms
  by (auto simp: GPS5_item_def Let_def split: if_splits sum.splits option.splits)

lemma GPSData_make_length: "GPSData_make zs = Inr g \<Longrightarrow> length zs = 5"
  by (erule GPSData_make.elims) auto

lemma divide_pairs_Inl: "divide_pairs ps = Inl e \<Longrightarrow> e = ZeroDivisionError"
  by (induction ps arbitrary: e) (auto split: if_splits sum.splits)

text \<open>A scale vector of fewer than five components: the sample that passes both filters
  raises, in the division or in \<^verbatim>\<open>GPSData._make\<close>.\<close>

lemma GPS5_item_short_scale:
  assumes "\<not> (lon item = lat item \<and> lat item = alt item \<and> alt item = 0)"
    and "\<not> (GPSFIX s = 0 \<and> skip)" and "SCAL s = Vec ys" and "length ys < 5"
  shows "GPS5_item skip item s n = Inl ZeroDivisionError \<or> GPS5_item skip item s n = Inl TypeError_make"
proof (cases "divide_pairs (zip (GPSData_values item) ys)")
  case (Inl e)
  then have "e = ZeroDivisionError" by (rule divide_pairs_Inl)
  with Inl assms(1,2,3) show ?thesis
    by (simp add: GPS5_item_def scale_values_def Let_def)
next
  case (Inr zs)
  then have "length zs = length (zip (GPSData_values item) ys)" by (rule divide_pairs_length)
  with assms(4) have "length zs \<noteq> 5" by (simp add: GPSData_values_def)
  then have "GPSData_make zs = Inl TypeError_make"
    using GPSData_make_length [of zs] by (cases "GPSData_make zs") (auto elim: GPSData_make.elims)
  with Inr assms(1,2,3) show ?thesis
    by (simp add: GPS5_item_def scale_values_def Let_def)
qed

lemma timedelta_one_sample: "timedelta (of_nat 1 * t_delta) = 55556"
  by code_simp

lemma timedelta_two_samples: "timedelta (of_nat 2 * t_delta) = 111111"
  by code_simp

lemma timedelta_zero [simp]: "timedelta 0 = 0"
  by (simp add: timedelta_def round_half_even_def)

lemma GPS5_item_frame:
  assumes "GPS5_item skip item s n = Inr (s', n')"
  shows "GPSU s' = GPSU s \<and> SCAL s' = SCAL s \<and> GPSFIX s' = GPSFIX s \<and> SYST s' = SYST s \<and>
         start_time s' = start_time s \<and> DVNM s' = DVNM s \<and> TSMP s' = TSMP s"
  using assms
  by (auto simp: GPS5_item_def Let_def split: if_splits sum.splits option.splits)

lemma GPS5_loop_frame:
  "GPS5_loop skip items s n = Inr s' \<Longrightarrow>
     GPSU s' = GPSU s \<and> SCAL s' = SCAL s \<and> GPSFIX s' = GPSFIX s \<and> SYST s' = SYST s \<and>
     start_time s' = start_time s \<and> DVNM s' = DVNM s \<and> TSMP s' = TSMP s"
proof (induction items arbitrary: s n)
  case Nil
  then show ?case by simp
next
  case (Cons item items)
  from Cons.prems obtain s1 n1 where i: "GPS5_item skip item s n = Inr (s1, n1)"
    and l: "GPS5_loop skip items s1 n1 = Inr s'"
    by (auto split: sum.splits)
  from Cons.IH [OF l] GPS5_item_frame [OF i] show ?case by simp
qed

lemma SYST_record_frame:
  "SYST_record d s = Inr s' \<Longrightarrow>
     GPSU s' = GPSU s \<and> start_time s' = start_time s \<and> DVNM s' = DVNM s \<and> TSMP s' = TSMP s \<and>
     points s' = points s \<and> stats s' = stats s \<and> out s' = out s"
  by (auto simp: SYST_record_def split: sum.splits list.splits if_splits)

lemma GPRI_record_frame:
  "GPRI_record skip d s = Inr s' \<Longrightarrow>
     GPSU s' = GPSU s \<and> start_time s' = start_time s \<and> DVNM s' = DVNM s \<and> TSMP s' = TSMP s \<and>
     points s' = points s \<and> stat_ok (stats s') = stat_ok (stats s)"
  by (auto simp: GPRI_record_def Let_def split: sum.splits if_splits)

lemma GPSF_record_frame:
  "GPSF_record xlate v s = Inr s' \<Longrightarrow>
     GPSU s' = GPSU s \<and> start_time s' = start_time s \<and> DVNM s' = DVNM s \<and> TSMP s' = TSMP s \<and>
     points s' = points s \<and> stats s' = stats s"
  by (auto simp: GPSF_record_def print_def split: option.splits if_splits)

text \<open>The \<^verbatim>\<open>ok\<close> counter counts the points.\<close>

lemma GPS5_item_ok:
  "GPS5_item skip item s n = Inr (s', n') \<Longrightarrow>
     stat_ok (stats s') + length (points s) = stat_ok (stats s) + length (points s')"
  by (auto simp: GPS5_item_def Let_def split: if_splits sum.splits option.splits)

lemma GPS5_loop_ok:
  "GPS5_loop skip items s n = Inr s' \<Longrightarrow>
     stat_ok (stats s') + length (points s) = stat_ok (stats s) + length (points s')"
proof (induction items arbitrary: s n)
  case Nil
  then show ?case by simp
next
  case (Cons item items)
  from Cons.prems obtain s1 n1 where i: "GPS5_item skip item s n = Inr (s1, n1)"
    and l: "GPS5_loop skip items s1 n1 = Inr s'"
    by (auto split: sum.splits)
  from Cons.IH [OF l] GPS5_item_ok [OF i] show ?case by simp
qed

lemma step_ok:
  "step xlate skip s d = Inr s' \<Longrightarrow>
     stat_ok (stats s') + length (points s) = stat_ok (stats s) + length (points s')"
  by (cases d)
     (auto dest: GPS5_loop_ok SYST_record_frame GPRI_record_frame GPSF_record_frame)

lemma run_ok:
  "run xlate skip s data = Inr s' \<Longrightarrow>
     stat_ok (stats s') + length (points s) = stat_ok (stats s) + length (points s')"
proof (induction data arbitrary: s)
  case Nil
  then show ?case by simp
next
  case (Cons d ds)
  from Cons.prems obtain s1 where i: "step xlate skip s d = Inr s1"
    and l: "run xlate skip s1 ds = Inr s'"
    by (auto split: sum.splits)
  from Cons.IH [OF l] step_ok [OF i] show ?case by simp
qed

lemma step_start_time:
  "step xlate skip s d = Inr s' \<Longrightarrow>
     start_time s' = (case start_time s of None \<Rightarrow> first_GPSU [d] | Some t \<Rightarrow> Some t)"
  by (cases d)
     (auto dest: GPS5_loop_frame SYST_record_frame GPRI_record_frame GPSF_record_frame
           split: option.splits)

lemma first_GPSU_Cons:
  "first_GPSU (d # ds) = (case first_GPSU [d] of None \<Rightarrow> first_GPSU ds | Some t \<Rightarrow> Some t)"
  by (cases d) simp_all

lemma run_start_time:
  "run xlate skip s data = Inr s' \<Longrightarrow>
     start_time s' = (case start_time s of None \<Rightarrow> first_GPSU data | Some t \<Rightarrow> Some t)"
proof (induction data arbitrary: s)
  case Nil
  then show ?case by (simp split: option.splits)
next
  case (Cons d ds)
  from Cons.prems obtain s1 where i: "step xlate skip s d = Inr s1"
    and l: "run xlate skip s1 ds = Inr s'"
    by (auto split: sum.splits)
  from Cons.IH [OF l] step_start_time [OF i] show ?case
    by (subst first_GPSU_Cons) (auto split: option.splits)
qed

lemma step_DVNM:
  "step xlate skip s d = Inr s' \<Longrightarrow> DVNM s' = last_DVNM (DVNM s) [d]"
  by (cases d)
     (auto dest: GPS5_loop_frame SYST_record_frame GPRI_record_frame GPSF_record_frame)

lemma last_DVNM_Cons: "last_DVNM dv (d # ds) = last_DVNM (last_DVNM dv [d]) ds"
  by (cases d) simp_all

lemma run_DVNM:
  "run xlate skip s data = Inr s' \<Longrightarrow> DVNM s' = last_DVNM (DVNM s) data"
proof (induction data arbitrary: s)
  case Nil
  then show ?case by simp
next
  case (Cons d ds)
  from Cons.prems obtain s1 where i: "step xlate skip s d = Inr s1"
    and l: "run xlate skip s1 ds = Inr s'"
    by (auto split: sum.splits)
  from Cons.IH [OF l] step_DVNM [OF i] show ?case
    by (subst last_DVNM_Cons) simp
qed

lemma run_append:
  "run xlate skip s (xs @ ys) =
     (case run xlate skip s xs of Inl e \<Rightarrow> Inl e | Inr s' \<Rightarrow> run xlate skip s' ys)"
  by (induction xs arbitrary: s) (auto split: sum.splits)

text \<open>Once an anchor is set it stays set, and the addition to the anchor cannot raise.\<close>

lemma GPS5_item_anchor:
  "GPSU s \<noteq> None \<Longrightarrow> GPS5_item skip item s n \<noteq> Inl TypeError_None_add"
  by (auto simp: GPS5_item_def Let_def scale_values_def
        split: if_splits sum.splits option.splits scal.splits
        dest: divide_pairs_Inl elim: GPSData_make.elims)

lemma GPS5_loop_anchor:
  "GPSU s \<noteq> None \<Longrightarrow> GPS5_loop skip items s n \<noteq> Inl TypeError_None_add"
proof (induction items arbitrary: s n)
  case Nil
  then show ?case by simp
next
  case (Cons item items)
  show ?case
  proof (cases "GPS5_item skip item s n")
    case (Inl e)
    with GPS5_item_anchor [OF Cons.prems, of skip item n] show ?thesis by simp
  next
    case (Inr r)
    obtain s1 n1 where r: "r = (s1, n1)" by (cases r)
    with Inr have "GPSU s1 = GPSU s" using GPS5_item_frame by blast
    with Cons.prems Cons.IH [of s1 n1] Inr r show ?thesis by simp
  qed
qed

lemma step_anchor:
  "GPSU s \<noteq> None \<Longrightarrow> step xlate skip s d \<noteq> Inl TypeError_None_add"
  by (cases d)
     (auto simp: GPS5_loop_anchor SYST_record_def GPRI_record_def GPSF_record_def Let_def
        scale_values_def
        split: if_splits sum.splits option.splits list.splits scal.splits
        dest: divide_pairs_Inl)

lemma step_GPSU_set:
  "GPSU s \<noteq> None \<Longrightarrow> step xlate skip s d = Inr s' \<Longrightarrow> GPSU s' \<noteq> None"
  by (cases d)
     (auto dest: GPS5_loop_frame SYST_record_frame GPRI_record_frame GPSF_record_frame)

lemma run_anchor:
  "GPSU s \<noteq> None \<Longrightarrow> run xlate skip s data \<noteq> Inl TypeError_None_add"
proof (induction data arbitrary: s)
  case Nil
  then show ?case by simp
next
  case (Cons d ds)
  show ?case
  proof (cases "step xlate skip s d")
    case (Inl e)
    with step_anchor [OF Cons.prems, of xlate skip d] show ?thesis by simp
  next
    case (Inr s1)
    with Cons.prems have "GPSU s1 \<noteq> None" using step_GPSU_set by blast
    with Cons.IH [of s1] Inr show ?thesis by simp
  qed
qed

lemma GPS5_item_no_anchor:
  assumes "GPSU s = None"
    and "\<not> (lon item = lat item \<and> lat item = alt item \<and> alt item = 0)"
    and "\<not> (GPSFIX s = 0 \<and> skip)"
  shows "\<exists>e. GPS5_item skip item s n = Inl e"
  using assms
  by (auto simp: GPS5_item_def Let_def split: sum.splits)

lemma GPS5_item_no_anchor_scaled:
  assumes "GPSU s = None"
    and "\<not> (lon item = lat item \<and> lat item = alt item \<and> alt item = 0)"
    and "\<not> (GPSFIX s = 0 \<and> skip)"
    and "SCAL s = Vec ys" "5 \<le> length ys" "\<forall>y \<in> set (take 5 ys). y \<noteq> 0"
  shows "GPS5_item skip item s n = Inl TypeError_None_add"
proof -
  obtain y0 y1 y2 y3 y4 rest where ys: "ys = y0 # y1 # y2 # y3 # y4 # rest"
    using length_ge5D[OF assms(5)] by blast
  with assms(6) have nz: "y0 \<noteq> 0" "y1 \<noteq> 0" "y2 \<noteq> 0" "y3 \<noteq> 0" "y4 \<noteq> 0"
    by simp_all
  show ?thesis using assms(1,2,3,4) ys nz
    by (simp add: GPS5_item_def scale_values_def GPSData_values_def Let_def)
qed

text \<open>The \<^verbatim>\<open>TSMP\<close> slot is a fold over the \<^verbatim>\<open>TSMP\<close> payloads.\<close>

lemma step_TSMP_slot:
  "step xlate skip s d = Inr s' \<Longrightarrow> TSMP s' = foldl TSMP_next (TSMP s) (TSMP_values [d])"
  by (cases d)
     (auto simp: TSMP_next_def
           dest: GPS5_loop_frame SYST_record_frame GPRI_record_frame GPSF_record_frame)

lemma TSMP_values_Cons: "TSMP_values (d # ds) = TSMP_values [d] @ TSMP_values ds"
  by (cases d) simp_all

lemma run_TSMP_slot:
  "run xlate skip s data = Inr s' \<Longrightarrow> TSMP s' = foldl TSMP_next (TSMP s) (TSMP_values data)"
proof (induction data arbitrary: s)
  case Nil
  then show ?case by simp
next
  case (Cons d ds)
  from Cons.prems obtain s1 where i: "step xlate skip s d = Inr s1"
    and l: "run xlate skip s1 ds = Inr s'"
    by (auto split: sum.splits)
  from Cons.IH [OF l] step_TSMP_slot [OF i] show ?case
    by (subst TSMP_values_Cons) simp
qed

text \<open>No branch but the \<^verbatim>\<open>TSMP\<close> branch reads the \<^verbatim>\<open>TSMP\<close> slot.\<close>

lemma GPS5_item_TSMP:
  "GPS5_item skip item (s\<lparr>TSMP := v\<rparr>) n =
     map_sum id (\<lambda>r. ((fst r)\<lparr>TSMP := v\<rparr>, snd r)) (GPS5_item skip item s n)"
  by (simp add: GPS5_item_def Let_def bump_empty_def bump_badfix_def bump_badfixskip_def
        bump_ok_def print_def split: sum.splits option.splits)

lemma GPS5_loop_TSMP:
  "GPS5_loop skip items (s\<lparr>TSMP := v\<rparr>) n =
     map_sum id (\<lambda>s'. s'\<lparr>TSMP := v\<rparr>) (GPS5_loop skip items s n)"
proof (induction items arbitrary: s n)
  case Nil
  then show ?case by simp
next
  case (Cons item items)
  show ?case
    by (cases "GPS5_item skip item s n") (auto simp: GPS5_item_TSMP Cons.IH)
qed

lemma step_TSMP:
  "\<not> is_TSMP d \<Longrightarrow>
     step xlate skip (s\<lparr>TSMP := v\<rparr>) d = map_sum id (\<lambda>s'. s'\<lparr>TSMP := v\<rparr>) (step xlate skip s d)"
  by (cases d)
     (auto simp: GPS5_loop_TSMP SYST_record_def GPRI_record_def GPSF_record_def Let_def
        bump_empty_def bump_badfix_def bump_badfixskip_def print_def
        split: sum.splits option.splits list.splits)

lemma run_without_TSMP:
  "map_sum id (\<lambda>s'. s'\<lparr>TSMP := 0\<rparr>)
      (run xlate skip (s\<lparr>TSMP := v\<rparr>) (filter (\<lambda>d. \<not> is_TSMP d) data))
   = map_sum id (\<lambda>s'. s'\<lparr>TSMP := 0\<rparr>) (run xlate skip s data)"
proof (induction data arbitrary: s v)
  case Nil
  show ?case by simp
next
  case (Cons d ds)
  show ?case
  proof (cases "is_TSMP d")
    case True
    then obtain w where d: "d = Rec_TSMP w" by (cases d) simp_all
    show ?thesis
      using Cons.IH [where s = "s\<lparr>TSMP := (if TSMP s = 0 then w else w - TSMP s)\<rparr>" and v = v] d
      by simp
  next
    case False
    show ?thesis
    proof (cases "step xlate skip s d")
      case (Inl e)
      with False show ?thesis by (simp add: step_TSMP)
    next
      case (Inr s1)
      with False Cons.IH [where s = s1 and v = v] show ?thesis by (simp add: step_TSMP)
    qed
  qed
qed

text \<open>Without \<^verbatim>\<open>GPS5\<close> and \<^verbatim>\<open>GPRI\<close> records no point is appended.\<close>

lemma step_no_points:
  "\<not> is_GPS5 d \<Longrightarrow> \<not> is_GPRI d \<Longrightarrow> step xlate skip s d = Inr s' \<Longrightarrow> points s' = points s"
  by (cases d) (auto dest: SYST_record_frame GPSF_record_frame)

lemma run_no_points:
  "\<forall>d \<in> set data. \<not> is_GPS5 d \<and> \<not> is_GPRI d \<Longrightarrow> run xlate skip s data = Inr s' \<Longrightarrow>
     points s' = points s"
proof (induction data arbitrary: s)
  case Nil
  then show ?case by simp
next
  case (Cons d ds)
  from Cons.prems(2) obtain s1 where i: "step xlate skip s d = Inr s1"
    and l: "run xlate skip s1 ds = Inr s'"
    by (auto split: sum.splits)
  from Cons.prems(1) have "points s1 = points s"
    using step_no_points [OF _ _ i] by simp
  moreover from Cons.prems(1) have "points s' = points s1"
    using Cons.IH [OF _ l] by simp
  ultimately show ?case by simp
qed

lemma step_returns:
  "\<not> is_GPS5 d \<Longrightarrow> \<not> is_GPRI d \<Longrightarrow> \<not> is_SYST d \<Longrightarrow> GPSF_known xlate d \<Longrightarrow>
     \<exists>s'. step xlate skip s d = Inr s'"
  by (cases d) (auto simp: GPSF_record_def)

lemma run_returns:
  "\<forall>d \<in> set data. \<not> is_GPS5 d \<and> \<not> is_GPRI d \<and> \<not> is_SYST d \<and> GPSF_known xlate d \<Longrightarrow>
     \<exists>s'. run xlate skip s data = Inr s'"
proof (induction data arbitrary: s)
  case Nil
  then show ?case by simp
next
  case (Cons d ds)
  then obtain s1 where i: "step xlate skip s d = Inr s1"
    using step_returns [of d xlate skip s] by auto
  from Cons.prems Cons.IH [of s1] obtain s' where "run xlate skip s1 ds = Inr s'"
    by auto
  with i show ?case by simp
qed

lemma Get_loop_append:
  "Get_loop sel S (xs @ ys) acc =
     (case Get_loop sel S xs acc of
        Inl e \<Rightarrow> Inl e
      | Inr acc' \<Rightarrow> Get_loop sel (current_SCAL S xs) ys acc')"
proof (induction xs arbitrary: S acc)
  case Nil
  show ?case by simp
next
  case (Cons d ds)
  show ?case
    by (cases d) (auto simp: Cons.IH Let_def split: option.splits sum.splits)
qed

text \<open>What the builder returns, in terms of the final state of the pass.\<close>

lemma BuildGPSPoints_Inr:
  "BuildGPSPoints xlate data skip = Inr (res, printed) \<longleftrightarrow>
     (\<exists>s. run xlate skip init data = Inr s \<and> res = (points s, start_time s, DVNM s) \<and>
          printed = out s @ [stats_report s])"
  by (auto simp: BuildGPSPoints_def split: sum.splits)

lemma BuildGPSPoints_Inl:
  "BuildGPSPoints xlate data skip = Inl e \<longleftrightarrow> run xlate skip init data = Inl e"
  by (auto simp: BuildGPSPoints_def split: sum.splits)

text \<open>Points are only ever appended.\<close>

lemma GPS5_loop_points:
  "GPS5_loop skip items s n = Inr s' \<Longrightarrow> \<exists>qs. points s' = points s @ qs"
proof (induction items arbitrary: s n)
  case Nil
  then show ?case by simp
next
  case (Cons item items)
  from Cons.prems obtain s1 n1 where i: "GPS5_item skip item s n = Inr (s1, n1)"
    and l: "GPS5_loop skip items s1 n1 = Inr s'"
    by (auto split: sum.splits)
  from GPS5_item_Inr [OF i] obtain q1 where "points s1 = points s @ q1" by auto
  moreover from Cons.IH [OF l] obtain q2 where "points s' = points s1 @ q2" by auto
  ultimately show ?case by simp
qed

lemma step_points:
  "step xlate skip s d = Inr s' \<Longrightarrow> \<exists>qs. points s' = points s @ qs"
  by (cases d)
     (auto dest: GPS5_loop_points SYST_record_frame GPRI_record_frame GPSF_record_frame)

lemma run_points:
  "run xlate skip s data = Inr s' \<Longrightarrow> \<exists>qs. points s' = points s @ qs"
proof (induction data arbitrary: s)
  case Nil
  then show ?case by simp
next
  case (Cons d ds)
  from Cons.prems obtain s1 where i: "step xlate skip s d = Inr s1"
    and l: "run xlate skip s1 ds = Inr s'"
    by (auto split: sum.splits)
  from step_points [OF i] obtain q1 where "points s1 = points s @ q1" by auto
  moreover from Cons.IH [OF l] obtain q2 where "points s' = points s1 @ q2" by auto
  ultimately show ?case by simp
qed

text \<open>The loop over the samples of a record, cut in two: the second part starts with the
  counter advanced by the number of points that the first part has appended.\<close>

lemma GPS5_loop_append:
  "GPS5_loop skip (xs @ ys) s n =
     (case GPS5_loop skip xs s n of
        Inl e \<Rightarrow> Inl e
      | Inr s' \<Rightarrow> GPS5_loop skip ys s' (n + (length (points s') - length (points s))))"
proof (induction xs arbitrary: s n)
  case Nil
  show ?case by simp
next
  case (Cons x xs)
  show ?case
  proof (cases "GPS5_item skip x s n")
    case (Inl e)
    then show ?thesis by simp
  next
    case (Inr r)
    obtain s1 n1 where r: "r = (s1, n1)" by (cases r)
    from Inr r have i: "GPS5_item skip x s n = Inr (s1, n1)" by simp
    show ?thesis
    proof (cases "GPS5_loop skip xs s1 n1")
      case (Inl e)
      with i Cons.IH [of s1 n1] show ?thesis by simp
    next
      case (Inr s')
      from GPS5_loop_points [OF Inr] obtain qs where q: "points s' = points s1 @ qs" by auto
      from GPS5_item_Inr [OF i] q
      have "n1 + (length (points s') - length (points s1))
              = n + (length (points s') - length (points s))"
        by auto
      with i Inr Cons.IH [of s1 n1] show ?thesis by simp
    qed
  qed
qed

text \<open>The pass over a sequence that holds a \<^verbatim>\<open>GPS5\<close> record.\<close>

lemma run_GPS5:
  "run xlate skip s (pre @ Rec_GPS5 items # post) =
     (case run xlate skip s pre of
        Inl e \<Rightarrow> Inl e
      | Inr s0 \<Rightarrow>
          (case GPS5_loop skip items s0 0 of
             Inl e \<Rightarrow> Inl e
           | Inr s1 \<Rightarrow> run xlate skip s1 post))"
  by (simp add: run_append split: sum.splits)

text \<open>The scale vector, the fix-quality code and the anchor of the state are those of the
  records read so far.\<close>

lemma step_current:
  "step xlate skip s d = Inr s' \<Longrightarrow>
     SCAL s' = current_SCAL (SCAL s) [d] \<and> GPSFIX s' = current_GPSF (GPSFIX s) [d] \<and>
     GPSU s' = current_GPSU (GPSU s) [d]"
  by (cases d)
     (auto simp: GPSF_record_def print_def SYST_record_def GPRI_record_def Let_def
        dest: GPS5_loop_frame split: option.splits if_splits sum.splits list.splits)

lemma current_Cons:
  "current_SCAL S (d # ds) = current_SCAL (current_SCAL S [d]) ds"
  "current_GPSF f (d # ds) = current_GPSF (current_GPSF f [d]) ds"
  "current_GPSU a (d # ds) = current_GPSU (current_GPSU a [d]) ds"
  by (cases d; simp)+

lemma run_current:
  "run xlate skip s data = Inr s' \<Longrightarrow>
     SCAL s' = current_SCAL (SCAL s) data \<and> GPSFIX s' = current_GPSF (GPSFIX s) data \<and>
     GPSU s' = current_GPSU (GPSU s) data"
proof (induction data arbitrary: s)
  case Nil
  then show ?case by simp
next
  case (Cons d ds)
  from Cons.prems obtain s1 where i: "step xlate skip s d = Inr s1"
    and l: "run xlate skip s1 ds = Inr s'"
    by (auto split: sum.splits)
  from Cons.IH [OF l] step_current [OF i] show ?case
    by (simp add: current_Cons [of _ d ds])
qed

text \<open>The state in which the pass arrives at a sample: after the records \<open>pre\<close> and the
  samples \<open>before\<close> of the same record.\<close>

lemma run_before_sample:
  assumes "run xlate skip init (pre @ [Rec_GPS5 before]) = Inr s"
  shows "SCAL s = current_SCAL (SCAL init) pre \<and> GPSFIX s = current_GPSF (GPSFIX init) pre \<and>
         GPSU s = current_GPSU (GPSU init) pre"
proof -
  from assms obtain s0 where 0: "run xlate skip init pre = Inr s0"
    and 1: "GPS5_loop skip before s0 0 = Inr s"
    by (auto simp: run_append split: sum.splits)
  from run_current [OF 0] GPS5_loop_frame [OF 1] show ?thesis by simp
qed

lemma run_at_sample:
  assumes "run xlate skip init (pre @ [Rec_GPS5 before]) = Inr s"
  shows "\<exists>n. run xlate skip init (pre @ Rec_GPS5 (before @ item # after) # post) =
     (case GPS5_item skip item s n of
        Inl e \<Rightarrow> Inl e
      | Inr (s1, n1) \<Rightarrow>
          (case GPS5_loop skip after s1 n1 of
             Inl e \<Rightarrow> Inl e
           | Inr s2 \<Rightarrow> run xlate skip s2 post))"
proof -
  from assms obtain s0 where 0: "run xlate skip init pre = Inr s0"
    and 1: "GPS5_loop skip before s0 0 = Inr s"
    by (auto simp: run_append split: sum.splits)
  show ?thesis
    by (rule exI [of _ "0 + (length (points s) - length (points s0))"])
       (simp add: run_GPS5 0 GPS5_loop_append 1 split: sum.splits prod.splits)
qed

lemma run_at_last_sample:
  assumes "run xlate skip init (pre @ [Rec_GPS5 before]) = Inr s"
  shows "\<exists>n. run xlate skip init (pre @ [Rec_GPS5 (before @ [item])]) =
     (case GPS5_item skip item s n of Inl e \<Rightarrow> Inl e | Inr r \<Rightarrow> Inr (fst r))"
proof -
  from run_at_sample [OF assms, of item "[]" "[]"] obtain n where
    "run xlate skip init (pre @ [Rec_GPS5 (before @ [item])]) =
     (case GPS5_item skip item s n of
        Inl e \<Rightarrow> Inl e
      | Inr (s1, n1) \<Rightarrow>
          (case GPS5_loop skip [] s1 n1 of
             Inl e \<Rightarrow> Inl e
           | Inr s2 \<Rightarrow> run xlate skip s2 []))"
    by blast
  then have "run xlate skip init (pre @ [Rec_GPS5 (before @ [item])]) =
     (case GPS5_item skip item s n of Inl e \<Rightarrow> Inl e | Inr r \<Rightarrow> Inr (fst r))"
    by (simp split: sum.splits prod.splits)
  then show ?thesis ..
qed

text \<open>The counters and the number of points after a pass that does not raise.\<close>

lemma GPS5_item_counters:
  assumes "GPS5_item skip item s n = Inr (s', n')"
  shows "stat_empty (stats s') = stat_empty (stats s) + (if all_zero item then 1 else 0) \<and>
     stat_badfix (stats s')
       = stat_badfix (stats s) + (if \<not> all_zero item \<and> GPSFIX s = 0 then 1 else 0) \<and>
     stat_badfixskip (stats s')
       = stat_badfixskip (stats s) + (if \<not> all_zero item \<and> GPSFIX s = 0 \<and> skip then 1 else 0) \<and>
     length (points s')
       = length (points s) + (if \<not> all_zero item \<and> \<not> (GPSFIX s = 0 \<and> skip) then 1 else 0)"
  using assms
  by (auto simp: GPS5_item_def all_zero_def Let_def split: if_splits sum.splits option.splits)

lemma GPS5_loop_counters:
  "GPS5_loop skip items s n = Inr s' \<Longrightarrow>
     stat_empty (stats s') = stat_empty (stats s) + length (filter all_zero items) \<and>
     stat_badfix (stats s')
       = stat_badfix (stats s)
           + (if GPSFIX s = 0 then length (filter (\<lambda>item. \<not> all_zero item) items) else 0) \<and>
     stat_badfixskip (stats s')
       = stat_badfixskip (stats s)
           + (if GPSFIX s = 0 \<and> skip then length (filter (\<lambda>item. \<not> all_zero item) items) else 0) \<and>
     length (points s')
       = length (points s)
           + (if GPSFIX s = 0 \<and> skip then 0 else length (filter (\<lambda>item. \<not> all_zero item) items))"
proof (induction items arbitrary: s n)
  case Nil
  then show ?case by simp
next
  case (Cons item items)
  from Cons.prems obtain s1 n1 where i: "GPS5_item skip item s n = Inr (s1, n1)"
    and l: "GPS5_loop skip items s1 n1 = Inr s'"
    by (auto split: sum.splits)
  from GPS5_item_frame [OF i] have f: "GPSFIX s1 = GPSFIX s" by simp
  from Cons.IH [OF l] GPS5_item_counters [OF i] f show ?case by simp
qed

lemma GPRI_record_counters:
  assumes "GPRI_record skip d s = Inr s'"
  shows "stat_empty (stats s') = stat_empty (stats s) + (if k_all_zero d then 1 else 0) \<and>
     stat_badfix (stats s')
       = stat_badfix (stats s) + (if GPSFIX s = 0 \<and> \<not> k_all_zero d then 1 else 0) \<and>
     stat_badfixskip (stats s')
       = stat_badfixskip (stats s) + (if skip \<and> GPSFIX s = 0 \<and> \<not> k_all_zero d then 1 else 0) \<and>
     points s' = points s"
  using assms
  by (auto simp: GPRI_record_def k_all_zero_def Let_def split: if_splits sum.splits)

lemma step_counters:
  assumes "step xlate skip s d = Inr s'"
  shows "stat_empty (stats s') = stat_empty (stats s) + count_empty [d] \<and>
     stat_badfix (stats s') = stat_badfix (stats s) + count_badfix (GPSFIX s) [d] \<and>
     stat_badfixskip (stats s')
       = stat_badfixskip (stats s) + (if skip then count_badfix (GPSFIX s) [d] else 0) \<and>
     length (points s') = length (points s) + count_kept skip (GPSFIX s) [d]"
proof (cases d)
  case (Rec_GPS5 items)
  with assms GPS5_loop_counters [of skip items s 0 s'] show ?thesis by simp
next
  case (Rec_GPRI k)
  with assms GPRI_record_counters [of skip k s s'] show ?thesis by simp
next
  case (Rec_GPSF v)
  with assms GPSF_record_frame [of xlate v s s'] show ?thesis by simp
next
  case (Rec_SYST v)
  with assms SYST_record_frame [of v s s'] show ?thesis by simp
qed (use assms in auto)

lemma count_Cons:
  "count_empty (d # ds) = count_empty [d] + count_empty ds"
  "count_nonzero (d # ds) = count_nonzero [d] + count_nonzero ds"
  "count_badfix f (d # ds) = count_badfix f [d] + count_badfix (current_GPSF f [d]) ds"
  "count_kept skip f (d # ds)
     = count_kept skip f [d] + count_kept skip (current_GPSF f [d]) ds"
  by (cases d; simp)+

lemma run_counters:
  "run xlate skip s data = Inr s' \<Longrightarrow>
     stat_empty (stats s') = stat_empty (stats s) + count_empty data \<and>
     stat_badfix (stats s') = stat_badfix (stats s) + count_badfix (GPSFIX s) data \<and>
     stat_badfixskip (stats s')
       = stat_badfixskip (stats s) + (if skip then count_badfix (GPSFIX s) data else 0) \<and>
     length (points s') = length (points s) + count_kept skip (GPSFIX s) data"
proof (induction data arbitrary: s)
  case Nil
  then show ?case by simp
next
  case (Cons d ds)
  from Cons.prems obtain s1 where i: "step xlate skip s d = Inr s1"
    and l: "run xlate skip s1 ds = Inr s'"
    by (auto split: sum.splits)
  from step_current [OF i] have f: "GPSFIX s1 = current_GPSF (GPSFIX s) [d]" by simp
  from Cons.IH [OF l] step_counters [OF i] f show ?case
    by (simp add: count_Cons [where d = d and ds = ds])
qed

lemma count_kept_le: "count_kept skip f data \<le> count_nonzero data"
  by (induction skip f data rule: count_kept.induct) (auto simp: trans_le_add2)

text \<open>What a sample that passes both filters does, by the scale vector.\<close>

lemma all_zero_iff:
  "(lon item = lat item \<and> lat item = alt item \<and> alt item = 0) \<longleftrightarrow> all_zero item"
  by (auto simp: all_zero_def)

lemma divide_pairs_zero:
  "0 \<in> snd ` set ps \<Longrightarrow> divide_pairs ps = Inl ZeroDivisionError"
proof (induction ps)
  case Nil
  then show ?case by simp
next
  case (Cons p ps)
  obtain x y where p: "p = (x, y)" by (cases p)
  show ?case
  proof (cases "y = 0")
    case True
    with p show ?thesis by simp
  next
    case False
    with Cons.prems p have "0 \<in> snd ` set ps" by auto
    from Cons.IH [OF this] p False show ?thesis by simp
  qed
qed

lemma GPS5_item_zero_scale:
  assumes "\<not> all_zero item" and "\<not> (GPSFIX s = 0 \<and> skip)"
    and "SCAL s = Vec ys" and "\<exists>y \<in> set (take 5 ys). y = 0"
  shows "GPS5_item skip item s n = Inl ZeroDivisionError"
proof -
  have l: "length (GPSData_values item) = 5"
    by (simp add: GPSData_values_def)
  have "map snd (zip (GPSData_values item) ys) = take 5 ys"
    by (simp only: map_snd_zip_take l) (simp add: min_def)
  then have "snd ` set (zip (GPSData_values item) ys) = set (take 5 ys)"
    by (simp only: set_map [symmetric])
  with assms(4) have "0 \<in> snd ` set (zip (GPSData_values item) ys)"
    by auto
  then have "divide_pairs (zip (GPSData_values item) ys) = Inl ZeroDivisionError"
    by (rule divide_pairs_zero)
  with assms(1,2,3) show ?thesis
    by (simp add: GPS5_item_def all_zero_iff scale_values_def Let_def)
qed

lemma GPS5_item_few_components:
  assumes "\<not> all_zero item" and "\<not> (GPSFIX s = 0 \<and> skip)"
    and "SCAL s = Vec ys" and "length ys < 5" and "\<forall>y \<in> set ys. y \<noteq> 0"
  shows "GPS5_item skip item s n = Inl TypeError_make"
proof -
  from assms(5) have "\<forall>p \<in> set (zip (GPSData_values item) ys). snd p \<noteq> 0"
    by (auto dest: set_zip_rightD)
  from divide_pairs_ok [OF this] obtain zs
    where z: "divide_pairs (zip (GPSData_values item) ys) = Inr zs" by blast
  from divide_pairs_length [OF z] assms(4) have "length zs \<noteq> 5"
    by (simp add: GPSData_values_def)
  then have "GPSData_make zs = Inl TypeError_make"
    using GPSData_make_length [of zs] by (cases "GPSData_make zs") (auto elim: GPSData_make.elims)
  with z assms(1,2,3) show ?thesis
    by (simp add: GPS5_item_def all_zero_iff scale_values_def Let_def)
qed

lemma GPS5_item_number_scale:
  assumes "\<not> all_zero item" and "\<not> (GPSFIX s = 0 \<and> skip)" and "SCAL s = Num y"
  shows "GPS5_item skip item s n = Inl TypeError_list"
  using assms by (simp add: GPS5_item_def all_zero_iff scale_values_def Let_def)

lemma GPS5_item_kept:
  assumes "\<not> all_zero item" and "GPS5_item False item s n = Inr (s', n')"
  shows "\<exists>p. s' = bump_ok ((if GPSFIX s = 0 then bump_badfix s else s)
                        \<lparr>points := points (if GPSFIX s = 0 then bump_badfix s else s) @ [p]\<rparr>)"
  using assms
  by (auto simp: GPS5_item_def all_zero_iff Let_def split: if_splits sum.splits option.splits)

text \<open>A pass that raises before it arrives at a sample raises on every longer sequence.\<close>

lemma run_raises_before_sample:
  assumes "run xlate skip init (pre @ [Rec_GPS5 before]) = Inl e"
  shows "run xlate skip init (pre @ Rec_GPS5 (before @ rest) # post) = Inl e"
  using assms by (auto simp: run_GPS5 GPS5_loop_append split: sum.splits)

lemma current_GPSU_none:
  "\<forall>d \<in> set ds. \<not> is_GPSU d \<Longrightarrow> current_GPSU a ds = a"
  by (induction a ds rule: current_GPSU.induct) simp_all

text \<open>Records without a sample that passes both filters cannot raise at the timestamp.\<close>

lemma GPS5_loop_all_rejected:
  "\<forall>item \<in> set items. all_zero item \<or> (GPSFIX s = 0 \<and> skip) \<Longrightarrow>
     \<exists>s'. GPS5_loop skip items s n = Inr s'"
proof (induction items arbitrary: s n)
  case Nil
  show ?case by simp
next
  case (Cons item items)
  from Cons.prems have "all_zero item \<or> (GPSFIX s = 0 \<and> skip)" by auto
  then have "\<exists>s1. GPS5_item skip item s n = Inr (s1, n)"
    by (auto simp: GPS5_item_def all_zero_iff Let_def)
  then obtain s1 where i: "GPS5_item skip item s n = Inr (s1, n)" ..
  from GPS5_item_frame [OF i] have "GPSFIX s1 = GPSFIX s" by simp
  with Cons.prems Cons.IH [of s1 n] obtain s' where "GPS5_loop skip items s1 n = Inr s'"
    by auto
  with i show ?case by simp
qed

lemma step_no_sample_passes:
  "no_sample_passes skip (GPSFIX s) [d] \<Longrightarrow> step xlate skip s d \<noteq> Inl TypeError_None_add"
proof (cases d)
  case (Rec_GPS5 items)
  assume "no_sample_passes skip (GPSFIX s) [d]"
  with Rec_GPS5 GPS5_loop_all_rejected [of items s skip 0] show ?thesis by auto
qed (auto simp: SYST_record_def GPRI_record_def GPSF_record_def Let_def scale_values_def
        split: if_splits sum.splits option.splits list.splits scal.splits
        dest: divide_pairs_Inl)

lemma no_sample_passes_Cons:
  "no_sample_passes skip f (d # ds) \<longleftrightarrow>
     no_sample_passes skip f [d] \<and> no_sample_passes skip (current_GPSF f [d]) ds"
  by (cases d) auto

lemma run_no_sample_passes:
  "no_sample_passes skip (GPSFIX s) ds \<Longrightarrow> run xlate skip s ds \<noteq> Inl TypeError_None_add"
proof (induction ds arbitrary: s)
  case Nil
  show ?case by simp
next
  case (Cons d ds)
  from Cons.prems have 1: "no_sample_passes skip (GPSFIX s) [d]"
    and 2: "no_sample_passes skip (current_GPSF (GPSFIX s) [d]) ds"
    by (simp_all add: no_sample_passes_Cons [of skip _ d ds])
  show ?case
  proof (cases "step xlate skip s d")
    case (Inl e)
    with step_no_sample_passes [OF 1, of xlate] show ?thesis by simp
  next
    case (Inr s1)
    from step_current [OF Inr] 2 have "no_sample_passes skip (GPSFIX s1) ds" by simp
    from Cons.IH [OF this] Inr show ?thesis by simp
  qed
qed

text \<open>The extractors against the rows as the spec words them.\<close>

lemma current_SCAL_last:
  "current_SCAL S ds = (if SCAL_values ds = [] then S else last (SCAL_values ds))"
  by (induction S ds rule: current_SCAL.induct) simp_all

lemma current_SCAL_most_recent: "current_SCAL (Num 1) ds = most_recent_SCAL ds"
  by (simp add: current_SCAL_last most_recent_SCAL_def)

lemma scaled_data_usable:
  "item \<noteq> [] \<longrightarrow> SCAL_number S \<noteq> 0 \<Longrightarrow>
     scaled_data S item = Inr (map (\<lambda>x. x / SCAL_number S) item)"
  by (cases S) (auto simp: scaled_data_def)

lemma scaled_data_unusable:
  "item \<noteq> [] \<Longrightarrow> SCAL_number S = 0 \<Longrightarrow>
     scaled_data S item = Inl ZeroDivisionError \<or> scaled_data S item = Inl TypeError_float"
  by (cases S) (auto simp: scaled_data_def)

lemma append_items_usable:
  "\<forall>item \<in> set items. item \<noteq> [] \<longrightarrow> SCAL_number S \<noteq> 0 \<Longrightarrow>
     append_items S items acc = Inr (acc @ map (map (\<lambda>x. x / SCAL_number S)) items)"
  by (induction items arbitrary: acc) (simp_all add: scaled_data_usable)

lemma append_items_unusable:
  "\<not> (\<forall>item \<in> set items. item \<noteq> [] \<longrightarrow> SCAL_number S \<noteq> 0) \<Longrightarrow>
     append_items S items acc = Inl ZeroDivisionError \<or>
     append_items S items acc = Inl TypeError_float"
proof (induction items arbitrary: acc)
  case Nil
  then show ?case by simp
next
  case (Cons item items)
  show ?case
  proof (cases "item \<noteq> [] \<and> SCAL_number S = 0")
    case True
    with scaled_data_unusable [of item S] show ?thesis by auto
  next
    case False
    then have u: "item \<noteq> [] \<longrightarrow> SCAL_number S \<noteq> 0" by blast
    with Cons.prems have "\<not> (\<forall>item \<in> set items. item \<noteq> [] \<longrightarrow> SCAL_number S \<noteq> 0)"
      by auto
    from Cons.IH [OF this] scaled_data_usable [OF u] show ?thesis by simp
  qed
qed

lemma expected_rows_snoc:
  "expected_rows sel (ds @ [d]) =
     expected_rows sel ds @
       (case sel d of None \<Rightarrow> []
        | Some items \<Rightarrow> map (map (\<lambda>x. x / SCAL_number (most_recent_SCAL ds))) items)"
proof -
  define F where "F = (\<lambda>i. case sel ((ds @ [d]) ! i) of None \<Rightarrow> []
            | Some items \<Rightarrow>
                map (map (\<lambda>x. x / SCAL_number (most_recent_SCAL (take i (ds @ [d]))))) items)"
  define G where "G = (\<lambda>i. case sel (ds ! i) of None \<Rightarrow> []
            | Some items \<Rightarrow> map (map (\<lambda>x. x / SCAL_number (most_recent_SCAL (take i ds)))) items)"
  have 1: "expected_rows sel (ds @ [d]) = concat (map F [0..<length ds]) @ F (length ds)"
    by (simp add: expected_rows_def F_def)
  have 2: "map F [0..<length ds] = map G [0..<length ds]"
    by (rule map_cong) (simp_all add: F_def G_def nth_append cong: option.case_cong)
  have 3: "F (length ds) = (case sel d of None \<Rightarrow> []
        | Some items \<Rightarrow> map (map (\<lambda>x. x / SCAL_number (most_recent_SCAL ds))) items)"
    by (simp add: F_def cong: option.case_cong)
  have 4: "expected_rows sel ds = concat (map G [0..<length ds])"
    by (simp add: expected_rows_def G_def)
  show ?thesis by (simp only: 1 2 3 4)
qed

lemma divisors_usable_snoc:
  "divisors_usable sel (ds @ [d]) \<longleftrightarrow>
     divisors_usable sel ds \<and>
     (case sel d of None \<Rightarrow> True
      | Some items \<Rightarrow>
          (\<forall>item \<in> set items. item \<noteq> [] \<longrightarrow> SCAL_number (most_recent_SCAL ds) \<noteq> 0))"
proof -
  define F where "F = (\<lambda>i. case sel ((ds @ [d]) ! i) of None \<Rightarrow> True
            | Some items \<Rightarrow> (\<forall>item \<in> set items.
                item \<noteq> [] \<longrightarrow> SCAL_number (most_recent_SCAL (take i (ds @ [d]))) \<noteq> 0))"
  define G where "G = (\<lambda>i. case sel (ds ! i) of None \<Rightarrow> True
            | Some items \<Rightarrow> (\<forall>item \<in> set items.
                item \<noteq> [] \<longrightarrow> SCAL_number (most_recent_SCAL (take i ds)) \<noteq> 0))"
  have 1: "divisors_usable sel (ds @ [d]) \<longleftrightarrow> (\<forall>i < length ds. F i) \<and> F (length ds)"
    by (auto simp: divisors_usable_def F_def less_Suc_eq)
  have 2: "F i = G i" if "i < length ds" for i
    using that by (simp add: F_def G_def nth_append cong: option.case_cong)
  have 3: "F (length ds) = (case sel d of None \<Rightarrow> True
        | Some items \<Rightarrow> (\<forall>item \<in> set items.
            item \<noteq> [] \<longrightarrow> SCAL_number (most_recent_SCAL ds) \<noteq> 0))"
    by (simp add: F_def cong: option.case_cong)
  have 4: "divisors_usable sel ds \<longleftrightarrow> (\<forall>i < length ds. G i)"
    by (auto simp: divisors_usable_def G_def)
  from 2 have "(\<forall>i < length ds. F i) \<longleftrightarrow> (\<forall>i < length ds. G i)" by simp
  with 1 3 4 show ?thesis by simp
qed

lemma Get_loop_rows:
  assumes "\<And>v. sel (Rec_SCAL v) = None"
  shows "(divisors_usable sel data \<longrightarrow>
            Get_loop sel (Num 1) data [] = Inr (expected_rows sel data))
       \<and> (\<not> divisors_usable sel data \<longrightarrow>
            Get_loop sel (Num 1) data [] = Inl ZeroDivisionError \<or>
            Get_loop sel (Num 1) data [] = Inl TypeError_float)"
proof (induction data rule: rev_induct)
  case Nil
  show ?case by (simp add: expected_rows_def divisors_usable_def)
next
  case (snoc d ds)
  show ?case
  proof (cases "divisors_usable sel ds")
    case False
    with snoc show ?thesis
      by (auto simp: Get_loop_append divisors_usable_snoc)
  next
    case True
    with snoc have ih: "Get_loop sel (Num 1) ds [] = Inr (expected_rows sel ds)" by simp
    show ?thesis
    proof (cases "sel d")
      case None
      with True ih show ?thesis
        by (simp add: Get_loop_append expected_rows_snoc divisors_usable_snoc)
    next
      case (Some items)
      with assms have c: "(case d of Rec_SCAL v \<Rightarrow> v | _ \<Rightarrow> most_recent_SCAL ds)
          = most_recent_SCAL ds"
        by (cases d) auto
      show ?thesis
      proof (cases "\<forall>item \<in> set items. item \<noteq> [] \<longrightarrow> SCAL_number (most_recent_SCAL ds) \<noteq> 0")
        case u: True
        from append_items_usable [OF u, of "expected_rows sel ds"] Some True ih c u
        show ?thesis
          by (simp add: Get_loop_append expected_rows_snoc divisors_usable_snoc
              current_SCAL_most_recent)
      next
        case u: False
        from append_items_unusable [OF u, of "expected_rows sel ds"] Some True ih c u
        show ?thesis
          by (auto simp: Get_loop_append divisors_usable_snoc current_SCAL_most_recent)
      qed
    qed
  qed
qed

section \<open>Properties\<close>

text \<open>
  C6. A \<^verbatim>\<open>GPS5\<close> sample, and a \<^verbatim>\<open>GPRI\<close> record, whose latitude, longitude and altitude are
  all exactly zero never gives a point and adds one to the \<^verbatim>\<open>empty\<close> counter, whatever the
  fix quality and the skip policy are. When \<^verbatim>\<open>BuildGPSPoints\<close> returns on the records up to
  the sample, it returns on the records up to and with the sample too, with the same
  tuple, one more warning printed and a report in which only \<^verbatim>\<open>empty\<close> and the total are
  one higher. And on any record sequence on which it returns, the \<^verbatim>\<open>empty\<close> counter of
  the report is the number of all-zero samples and records, and there are no more points
  than samples and records that are not all zero.
\<close>

theorem C6_all_zero_rejected:
  "(all_zero item \<and>
      BuildGPSPoints xlate (pre @ [Rec_GPS5 before]) skip
        = Inr (res, printed @ [Stats_report dv ok bad skp emp tot]) \<longrightarrow>
      BuildGPSPoints xlate (pre @ [Rec_GPS5 (before @ [item])]) skip
        = Inr (res, printed @ [Warn_empty, Stats_report dv ok bad skp (emp + 1) (tot + 1)]))
   \<and> (k_all_zero d \<and>
      BuildGPSPoints xlate pre skip
        = Inr (res, printed @ [Stats_report dv ok bad skp emp tot]) \<longrightarrow>
      BuildGPSPoints xlate (pre @ [Rec_GPRI d]) skip
        = Inr (res, printed @ [Warn_empty, Stats_report dv ok bad skp (emp + 1) (tot + 1)]))
   \<and> (BuildGPSPoints xlate data skip = Inr ((pts, st, dv'), printed') \<longrightarrow>
        length pts \<le> count_nonzero data \<and> printed' \<noteq> [] \<and>
        (\<exists>ok bad skp.
           last printed'
             = Stats_report dv' ok bad skp (count_empty data)
                 (ok + bad + skp + count_empty data)))"
proof (intro conjI impI)
  assume h: "all_zero item \<and>
      BuildGPSPoints xlate (pre @ [Rec_GPS5 before]) skip
        = Inr (res, printed @ [Stats_report dv ok bad skp emp tot])"
  then obtain s where r: "run xlate skip init (pre @ [Rec_GPS5 before]) = Inr s"
    and res: "res = (points s, start_time s, DVNM s)"
    and o: "printed = out s" and sr: "stats_report s = Stats_report dv ok bad skp emp tot"
    by (auto simp: BuildGPSPoints_Inr)
  from h have i: "\<And>n. GPS5_item skip item s n = Inr (bump_empty (print Warn_empty s), n)"
    by (simp add: GPS5_item_def all_zero_def)
  from run_at_sample [OF r, of item "[]" "[]"] i
  have "run xlate skip init (pre @ [Rec_GPS5 (before @ [item])])
          = Inr (bump_empty (print Warn_empty s))"
    by auto
  with res o sr show "BuildGPSPoints xlate (pre @ [Rec_GPS5 (before @ [item])]) skip
        = Inr (res, printed @ [Warn_empty, Stats_report dv ok bad skp (emp + 1) (tot + 1)])"
    by (simp add: BuildGPSPoints_def stats_report_def print_def bump_empty_def)
next
  assume h: "k_all_zero d \<and>
      BuildGPSPoints xlate pre skip
        = Inr (res, printed @ [Stats_report dv ok bad skp emp tot])"
  then obtain s where r: "run xlate skip init pre = Inr s"
    and res: "res = (points s, start_time s, DVNM s)"
    and o: "printed = out s" and sr: "stats_report s = Stats_report dv ok bad skp emp tot"
    by (auto simp: BuildGPSPoints_Inr)
  from h r have "run xlate skip init (pre @ [Rec_GPRI d])
          = Inr (bump_empty (print Warn_empty s))"
    by (simp add: run_append GPRI_record_def k_all_zero_def)
  with res o sr show "BuildGPSPoints xlate (pre @ [Rec_GPRI d]) skip
        = Inr (res, printed @ [Warn_empty, Stats_report dv ok bad skp (emp + 1) (tot + 1)])"
    by (simp add: BuildGPSPoints_def stats_report_def print_def bump_empty_def)
next
  assume "BuildGPSPoints xlate data skip = Inr ((pts, st, dv'), printed')"
  then obtain s where r: "run xlate skip init data = Inr s"
    and p: "pts = points s" "dv' = DVNM s" "printed' = out s @ [stats_report s]"
    by (auto simp: BuildGPSPoints_Inr)
  from run_counters [OF r] have c: "stat_empty (stats s) = count_empty data"
    "length (points s) = count_kept skip (GPSFIX init) data"
    by (simp_all add: init_def)
  from c(2) p(1) count_kept_le [of skip "GPSFIX init" data]
  show "length pts \<le> count_nonzero data" by simp
  from p show "printed' \<noteq> []" by simp
  from c(1) p show "\<exists>ok bad skp.
           last printed'
             = Stats_report dv' ok bad skp (count_empty data)
                 (ok + bad + skp + count_empty data)"
    by (simp add: stats_report_def)
qed

theorem C6_all_zero_rejected_witness:
  "BuildGPSPoints xlate_example [Rec_GPSU 7, Rec_GPSF 3, Rec_GPS5 [sample_zero]] True
     = Inr (([], Some 7, ''Unknown''),
            [Fix_change 3 ''3D lock'', Warn_empty, Stats_report ''Unknown'' 0 0 0 1 1])
   \<and> BuildGPSPoints xlate_example [Rec_GPSU 7, Rec_GPRI gpri_zero] False
     = Inr (([], Some 7, ''Unknown''), [Warn_empty, Stats_report ''Unknown'' 0 0 0 1 1])
   \<and> (\<exists>ok bad skp.
        Stats_report ''Unknown'' 0 0 0 1 1
          = Stats_report ''Unknown'' ok bad skp
              (count_empty [Rec_GPSU 7, Rec_GPSF 3, Rec_GPS5 [sample_zero]])
              (ok + bad + skp + count_empty [Rec_GPSU 7, Rec_GPSF 3, Rec_GPS5 [sample_zero]]))"
proof -
  have a: "all_zero sample_zero" "k_all_zero gpri_zero"
    by (simp_all add: all_zero_def k_all_zero_def sample_zero_def gpri_zero_def)
  have b: "BuildGPSPoints xlate_example ([Rec_GPSU 7, Rec_GPSF 3] @ [Rec_GPS5 []]) True
     = Inr (([], Some 7, ''Unknown''),
            [Fix_change 3 ''3D lock''] @ [Stats_report ''Unknown'' 0 0 0 0 0])"
    by (simp add: BuildGPSPoints_def init_def GPSF_record_def xlate_example_def print_def
        stats_report_def)
  have c: "BuildGPSPoints xlate_example [Rec_GPSU 7] False
     = Inr (([], Some 7, ''Unknown''), [] @ [Stats_report ''Unknown'' 0 0 0 0 0])"
    by (simp add: BuildGPSPoints_def init_def stats_report_def)
  have 1: "BuildGPSPoints xlate_example [Rec_GPSU 7, Rec_GPSF 3, Rec_GPS5 [sample_zero]] True
     = Inr (([], Some 7, ''Unknown''),
            [Fix_change 3 ''3D lock'', Warn_empty, Stats_report ''Unknown'' 0 0 0 1 1])"
    using C6_all_zero_rejected [where item = sample_zero and xlate = xlate_example
        and pre = "[Rec_GPSU 7, Rec_GPSF 3]" and before = "[]" and skip = True
        and res = "([], Some 7, ''Unknown'')" and printed = "[Fix_change 3 ''3D lock'']"
        and dv = "''Unknown''" and ok = 0 and bad = 0 and skp = 0 and emp = 0 and tot = 0]
      a b
    by simp
  have 2: "BuildGPSPoints xlate_example [Rec_GPSU 7, Rec_GPRI gpri_zero] False
     = Inr (([], Some 7, ''Unknown''), [Warn_empty, Stats_report ''Unknown'' 0 0 0 1 1])"
    using C6_all_zero_rejected [where d = gpri_zero and xlate = xlate_example
        and pre = "[Rec_GPSU 7]" and skip = False
        and res = "([], Some 7, ''Unknown'')" and printed = "[]"
        and dv = "''Unknown''" and ok = 0 and bad = 0 and skp = 0 and emp = 0 and tot = 0]
      a c
    by simp
  have 3: "\<exists>ok bad skp.
        Stats_report ''Unknown'' 0 0 0 1 1
          = Stats_report ''Unknown'' ok bad skp
              (count_empty [Rec_GPSU 7, Rec_GPSF 3, Rec_GPS5 [sample_zero]])
              (ok + bad + skp + count_empty [Rec_GPSU 7, Rec_GPSF 3, Rec_GPS5 [sample_zero]])"
    using C6_all_zero_rejected [where xlate = xlate_example and skip = True
        and data = "[Rec_GPSU 7, Rec_GPSF 3, Rec_GPS5 [sample_zero]]"
        and pts = "[]" and st = "Some 7" and dv' = "''Unknown''"
        and printed' = "[Fix_change 3 ''3D lock'', Warn_empty,
                         Stats_report ''Unknown'' 0 0 0 1 1]"]
      1
    by simp
  from 1 2 3 show ?thesis by blast
qed

text \<open>
  C4, as the code has it. For a \<^verbatim>\<open>GPS5\<close> sample that is not all zero and is met while the
  fix-quality code is 0, when \<^verbatim>\<open>BuildGPSPoints\<close> returns on the records up to the sample.
  With the skip policy enabled it returns on the records up to and with the sample too:
  the same points, a warning printed, \<^verbatim>\<open>badfix\<close> and \<^verbatim>\<open>badfixskip\<close> one higher. With the
  policy disabled, whenever it returns on the records up to and with the sample, it returns
  one more point, \<^verbatim>\<open>badfix\<close> and \<^verbatim>\<open>ok\<close> one higher and \<^verbatim>\<open>badfixskip\<close> as before; and it does
  return, with the scaled sample as the point, when a \<^verbatim>\<open>GPSU\<close> anchor is set and the scale
  vector has at least five components, the first five not zero. On any record sequence on
  which \<^verbatim>\<open>BuildGPSPoints\<close> returns, \<^verbatim>\<open>badfix\<close> is the number of samples and records that are
  not all zero and met with the code 0, \<^verbatim>\<open>badfixskip\<close> is the same number under the skip
  policy and 0 without it, and the points are as many as the samples that pass both
  filters.
\<close>

theorem C4_bad_fix_policy:
  assumes "\<not> all_zero item" and "current_GPSF (GPSFIX init) pre = 0"
  shows "(BuildGPSPoints xlate (pre @ [Rec_GPS5 before]) True
            = Inr (res, printed @ [Stats_report dv ok bad skp emp tot]) \<longrightarrow>
          BuildGPSPoints xlate (pre @ [Rec_GPS5 (before @ [item])]) True
            = Inr (res, printed @
                [Warn_badfix, Stats_report dv ok (bad + 1) (skp + 1) emp (tot + 2)]))
       \<and> (BuildGPSPoints xlate (pre @ [Rec_GPS5 before]) False
            = Inr ((pts, st, name), printed @ [Stats_report dv ok bad skp emp tot]) \<longrightarrow>
          (current_GPSU (GPSU init) pre = Some anchor \<and>
           current_SCAL (SCAL init) pre = Vec ys \<and> 5 \<le> length ys \<and>
           (\<forall>y \<in> set (take 5 ys). y \<noteq> 0) \<longrightarrow>
             (\<exists>p. BuildGPSPoints xlate (pre @ [Rec_GPS5 (before @ [item])]) False
                    = Inr ((pts @ [p], st, name), printed @
                        [Stats_report dv (ok + 1) (bad + 1) skp emp (tot + 2)]) \<and>
                  p_lat p = lat item / ys ! 0 \<and> p_lon p = lon item / ys ! 1 \<and>
                  p_alt p = alt item / ys ! 2 \<and> p_speed p = speed item / ys ! 3))
          \<and> (\<forall>r. BuildGPSPoints xlate (pre @ [Rec_GPS5 (before @ [item])]) False = Inr r \<longrightarrow>
                (\<exists>p. r = ((pts @ [p], st, name), printed @
                        [Stats_report dv (ok + 1) (bad + 1) skp emp (tot + 2)]))))
       \<and> (BuildGPSPoints xlate data skip = Inr ((pts', st', name'), printed') \<longrightarrow>
            length pts' = count_kept skip (GPSFIX init) data \<and> printed' \<noteq> [] \<and>
            (\<exists>emp'. last printed'
               = Stats_report name' (length pts') (count_badfix (GPSFIX init) data)
                   (if skip then count_badfix (GPSFIX init) data else 0) emp'
                   (length pts' + count_badfix (GPSFIX init) data
                      + (if skip then count_badfix (GPSFIX init) data else 0) + emp')))"
proof (intro conjI impI allI)
  assume h: "BuildGPSPoints xlate (pre @ [Rec_GPS5 before]) True
            = Inr (res, printed @ [Stats_report dv ok bad skp emp tot])"
  then obtain s where r: "run xlate True init (pre @ [Rec_GPS5 before]) = Inr s"
    and res: "res = (points s, start_time s, DVNM s)"
    and o: "printed = out s" and sr: "stats_report s = Stats_report dv ok bad skp emp tot"
    by (auto simp: BuildGPSPoints_Inr)
  from run_before_sample [OF r] assms(2) have f: "GPSFIX s = 0" by simp
  with assms(1) have i: "\<And>n. GPS5_item True item s n
      = Inr (bump_badfixskip (print Warn_badfix (bump_badfix s)), n)"
    by (simp add: GPS5_item_def all_zero_iff)
  from run_at_sample [OF r, of item "[]" "[]"] i
  have "run xlate True init (pre @ [Rec_GPS5 (before @ [item])])
          = Inr (bump_badfixskip (print Warn_badfix (bump_badfix s)))"
    by auto
  with res o sr show "BuildGPSPoints xlate (pre @ [Rec_GPS5 (before @ [item])]) True
            = Inr (res, printed @
                [Warn_badfix, Stats_report dv ok (bad + 1) (skp + 1) emp (tot + 2)])"
    by (simp add: BuildGPSPoints_def stats_report_def print_def bump_badfix_def
        bump_badfixskip_def)
next
  assume h: "BuildGPSPoints xlate (pre @ [Rec_GPS5 before]) False
            = Inr ((pts, st, name), printed @ [Stats_report dv ok bad skp emp tot])"
    and g: "current_GPSU (GPSU init) pre = Some anchor \<and>
           current_SCAL (SCAL init) pre = Vec ys \<and> 5 \<le> length ys \<and>
           (\<forall>y \<in> set (take 5 ys). y \<noteq> 0)"
  from h obtain s where r: "run xlate False init (pre @ [Rec_GPS5 before]) = Inr s"
    and res: "pts = points s" "st = start_time s" "name = DVNM s"
    and o: "printed = out s" and sr: "stats_report s = Stats_report dv ok bad skp emp tot"
    by (auto simp: BuildGPSPoints_Inr)
  from run_before_sample [OF r] assms(2) g have f: "GPSFIX s = 0" "GPSU s = Some anchor"
    "SCAL s = Vec ys" by simp_all
  from run_at_last_sample [OF r, of item] obtain n where
    e: "run xlate False init (pre @ [Rec_GPS5 (before @ [item])]) =
     (case GPS5_item False item s n of Inl e \<Rightarrow> Inl e | Inr r \<Rightarrow> Inr (fst r))"
    by blast
  have "GPS5_item False item s n =
    Inr (bump_ok ((if GPSFIX s = 0 then bump_badfix s else s)
           \<lparr>points := points s @ [accepted_point item ys anchor n]\<rparr>), n + 1)"
    using GPS5_item_accept [of item s False ys anchor n] assms(1) f g
    by (simp add: all_zero_iff)
  with e f have "run xlate False init (pre @ [Rec_GPS5 (before @ [item])])
      = Inr (bump_ok ((bump_badfix s)\<lparr>points := points s @ [accepted_point item ys anchor n]\<rparr>))"
    by simp
  with res o sr have "BuildGPSPoints xlate (pre @ [Rec_GPS5 (before @ [item])]) False
      = Inr ((pts @ [accepted_point item ys anchor n], st, name), printed @
                        [Stats_report dv (ok + 1) (bad + 1) skp emp (tot + 2)])"
    by (simp add: BuildGPSPoints_def stats_report_def bump_badfix_def bump_ok_def)
  then show "\<exists>p. BuildGPSPoints xlate (pre @ [Rec_GPS5 (before @ [item])]) False
                    = Inr ((pts @ [p], st, name), printed @
                        [Stats_report dv (ok + 1) (bad + 1) skp emp (tot + 2)]) \<and>
                  p_lat p = lat item / ys ! 0 \<and> p_lon p = lon item / ys ! 1 \<and>
                  p_alt p = alt item / ys ! 2 \<and> p_speed p = speed item / ys ! 3"
    by (intro exI [of _ "accepted_point item ys anchor n"]) (simp add: accepted_point_def)
next
  fix r
  assume h: "BuildGPSPoints xlate (pre @ [Rec_GPS5 before]) False
            = Inr ((pts, st, name), printed @ [Stats_report dv ok bad skp emp tot])"
    and b: "BuildGPSPoints xlate (pre @ [Rec_GPS5 (before @ [item])]) False = Inr r"
  from h obtain s where r: "run xlate False init (pre @ [Rec_GPS5 before]) = Inr s"
    and res: "pts = points s" "st = start_time s" "name = DVNM s"
    and o: "printed = out s" and sr: "stats_report s = Stats_report dv ok bad skp emp tot"
    by (auto simp: BuildGPSPoints_Inr)
  from run_before_sample [OF r] assms(2) have f: "GPSFIX s = 0" by simp
  from run_at_last_sample [OF r, of item] obtain n where
    e: "run xlate False init (pre @ [Rec_GPS5 (before @ [item])]) =
     (case GPS5_item False item s n of Inl e \<Rightarrow> Inl e | Inr r \<Rightarrow> Inr (fst r))"
    by blast
  from b obtain s1 where r1: "run xlate False init (pre @ [Rec_GPS5 (before @ [item])]) = Inr s1"
    and rr: "r = ((points s1, start_time s1, DVNM s1), out s1 @ [stats_report s1])"
    by (cases r) (auto simp: BuildGPSPoints_Inr)
  from e r1 obtain n1 where i: "GPS5_item False item s n = Inr (s1, n1)"
    by (auto split: sum.splits prod.splits)
  from GPS5_item_kept [OF assms(1) i] f obtain p where
    "s1 = bump_ok ((bump_badfix s)\<lparr>points := points (bump_badfix s) @ [p]\<rparr>)"
    by auto
  with rr res o sr show "\<exists>p. r = ((pts @ [p], st, name), printed @
                        [Stats_report dv (ok + 1) (bad + 1) skp emp (tot + 2)])"
    by (simp add: stats_report_def bump_badfix_def bump_ok_def)
next
  assume "BuildGPSPoints xlate data skip = Inr ((pts', st', name'), printed')"
  then obtain s where r: "run xlate skip init data = Inr s"
    and p: "pts' = points s" "name' = DVNM s" "printed' = out s @ [stats_report s]"
    by (auto simp: BuildGPSPoints_Inr)
  from run_counters [OF r] have c:
    "stat_badfix (stats s) = count_badfix (GPSFIX init) data"
    "stat_badfixskip (stats s) = (if skip then count_badfix (GPSFIX init) data else 0)"
    "length (points s) = count_kept skip (GPSFIX init) data"
    by (simp_all add: init_def)
  from run_ok [OF r] have k: "stat_ok (stats s) = length (points s)"
    by (simp add: init_def)
  from c(3) p(1) show "length pts' = count_kept skip (GPSFIX init) data" by simp
  from p show "printed' \<noteq> []" by simp
  from c(1,2) k p show "\<exists>emp'. last printed'
               = Stats_report name' (length pts') (count_badfix (GPSFIX init) data)
                   (if skip then count_badfix (GPSFIX init) data else 0) emp'
                   (length pts' + count_badfix (GPSFIX init) data
                      + (if skip then count_badfix (GPSFIX init) data else 0) + emp')"
    by (simp add: stats_report_def)
qed

theorem C4_bad_fix_policy_witness:
  "BuildGPSPoints xlate_example
     [Rec_SCAL (Vec [10, 10, 10, 10, 10]), Rec_GPSU 7, Rec_GPS5 [sample_raw]] True
     = Inr (([], Some 7, ''Unknown''), [Warn_badfix, Stats_report ''Unknown'' 0 1 1 0 2])
   \<and> (\<exists>p. BuildGPSPoints xlate_example
            [Rec_SCAL (Vec [10, 10, 10, 10, 10]), Rec_GPSU 7, Rec_GPS5 [sample_raw]] False
            = Inr (([p], Some 7, ''Unknown''), [Stats_report ''Unknown'' 1 1 0 0 2]) \<and>
          p_lat p = 10 \<and> p_lon p = 20 \<and> p_alt p = 30 \<and> p_speed p = 4)
   \<and> count_kept True (GPSFIX init)
        [Rec_SCAL (Vec [10, 10, 10, 10, 10]), Rec_GPSU 7, Rec_GPS5 [sample_raw]] = 0
   \<and> count_badfix (GPSFIX init)
        [Rec_SCAL (Vec [10, 10, 10, 10, 10]), Rec_GPSU 7, Rec_GPS5 [sample_raw]] = 1"
proof -
  have a: "\<not> all_zero sample_raw"
    by (simp add: all_zero_def sample_raw_def)
  have c: "current_GPSF (GPSFIX init) [Rec_SCAL (Vec [10, 10, 10, 10, 10]), Rec_GPSU 7] = 0"
    "current_GPSU (GPSU init) [Rec_SCAL (Vec [10, 10, 10, 10, 10]), Rec_GPSU 7] = Some 7"
    "current_SCAL (SCAL init) [Rec_SCAL (Vec [10, 10, 10, 10, 10]), Rec_GPSU 7]
       = Vec [10, 10, 10, 10, 10]"
    by (simp_all add: init_def)
  have b: "\<And>skip. BuildGPSPoints xlate_example
       ([Rec_SCAL (Vec [10, 10, 10, 10, 10]), Rec_GPSU 7] @ [Rec_GPS5 []]) skip
     = Inr (([], Some 7, ''Unknown''), [] @ [Stats_report ''Unknown'' 0 0 0 0 0])"
    by (simp add: BuildGPSPoints_def init_def stats_report_def)
  have v: "lat sample_raw = 100" "lon sample_raw = 200" "alt sample_raw = 300"
    "speed sample_raw = 40"
    by (simp_all add: sample_raw_def)
  note t = C4_bad_fix_policy [OF a c(1), where xlate = xlate_example and before = "[]"
        and res = "([], Some 7, ''Unknown'')" and printed = "[]" and pts = "[]"
        and st = "Some 7" and name = "''Unknown''"
        and dv = "''Unknown''" and ok = 0 and bad = 0 and skp = 0 and emp = 0 and tot = 0
        and anchor = 7 and ys = "[10, 10, 10, 10, 10]" and skip = True
        and data = "[Rec_SCAL (Vec [10, 10, 10, 10, 10]), Rec_GPSU 7, Rec_GPS5 [sample_raw]]"
        and pts' = "[]" and st' = "Some 7" and name' = "''Unknown''"
        and printed' = "[Warn_badfix, Stats_report ''Unknown'' 0 1 1 0 2]"]
  have 1: "BuildGPSPoints xlate_example
     [Rec_SCAL (Vec [10, 10, 10, 10, 10]), Rec_GPSU 7, Rec_GPS5 [sample_raw]] True
     = Inr (([], Some 7, ''Unknown''), [Warn_badfix, Stats_report ''Unknown'' 0 1 1 0 2])"
    using t b by (simp add: numeral_2_eq_2)
  have 2: "\<exists>p. BuildGPSPoints xlate_example
            [Rec_SCAL (Vec [10, 10, 10, 10, 10]), Rec_GPSU 7, Rec_GPS5 [sample_raw]] False
            = Inr (([p], Some 7, ''Unknown''), [Stats_report ''Unknown'' 1 1 0 0 2]) \<and>
          p_lat p = 10 \<and> p_lon p = 20 \<and> p_alt p = 30 \<and> p_speed p = 4"
    using t b c(2,3) v by (simp add: numeral_2_eq_2)
  have 3: "count_kept True (GPSFIX init)
        [Rec_SCAL (Vec [10, 10, 10, 10, 10]), Rec_GPSU 7, Rec_GPS5 [sample_raw]] = 0
   \<and> count_badfix (GPSFIX init)
        [Rec_SCAL (Vec [10, 10, 10, 10, 10]), Rec_GPSU 7, Rec_GPS5 [sample_raw]] = 1"
    using t 1 by simp
  from 1 2 3 show ?thesis by blast
qed

text \<open>
  C4 as stated fails: with the skip policy disabled, a fix quality of 0 and a sample that is
  not zero, no point is emitted when no \<^verbatim>\<open>GPSU\<close> record came first; the builder raises.
\<close>

theorem C4_counterexample:
  "BuildGPSPoints xlate_example
     [Rec_SCAL (Vec [10, 10, 10, 10, 10]), Rec_GPSF 0, Rec_GPS5 [sample_raw]] False
   = Inl TypeError_None_add"
  by (simp add: BuildGPSPoints_def init_def GPSF_record_def GPS5_item_def scale_values_def
      GPSData_values_def sample_raw_def bump_badfix_def)

text \<open>
  C1, as the code has it. For a \<^verbatim>\<open>GPS5\<close> sample that passes the empty and bad-fix filters
  while the current scale vector is \<open>ys\<close>. When \<open>ys\<close> has at least five components, the
  first five not zero, a \<^verbatim>\<open>GPSU\<close> anchor is set and \<^verbatim>\<open>BuildGPSPoints\<close> returns the points
  \<open>pts\<close> on the records up to the sample, then on the records up to and with the sample it
  returns \<open>pts\<close> and one more point, whose latitude, longitude, altitude and speed are the
  sample's fields divided by the components of \<open>ys\<close> at the same positions; and whatever
  follows the sample, when \<^verbatim>\<open>BuildGPSPoints\<close> returns, that point is the one after \<open>pts\<close>.
  When \<open>ys\<close> has fewer than five components \<^verbatim>\<open>BuildGPSPoints\<close> raises on every record
  sequence that holds the sample, and when the pass arrives at the sample it raises there
  (\<^verbatim>\<open>ZeroDivisionError\<close>, or \<^verbatim>\<open>TypeError\<close> from \<^verbatim>\<open>GPSData._make\<close>): fields are never silently
  truncated.
\<close>

theorem C1_scaling:
  assumes "\<not> all_zero item" and "\<not> (current_GPSF (GPSFIX init) pre = 0 \<and> skip)"
    and "current_SCAL (SCAL init) pre = Vec ys"
  shows "(BuildGPSPoints xlate (pre @ [Rec_GPS5 before]) skip = Inr ((pts, st, name), printed) \<and>
          5 \<le> length ys \<and> (\<forall>y \<in> set (take 5 ys). y \<noteq> 0) \<and>
          current_GPSU (GPSU init) pre = Some anchor \<longrightarrow>
            (\<exists>p printed'.
               BuildGPSPoints xlate (pre @ [Rec_GPS5 (before @ [item])]) skip
                 = Inr ((pts @ [p], st, name), printed') \<and>
               p_lat p = lat item / ys ! 0 \<and> p_lon p = lon item / ys ! 1 \<and>
               p_alt p = alt item / ys ! 2 \<and> p_speed p = speed item / ys ! 3)
          \<and> (\<forall>pts' st' name' printed'.
               BuildGPSPoints xlate (pre @ Rec_GPS5 (before @ item # after) # post) skip
                 = Inr ((pts', st', name'), printed') \<longrightarrow>
               (\<exists>p rest. pts' = pts @ p # rest \<and>
                  p_lat p = lat item / ys ! 0 \<and> p_lon p = lon item / ys ! 1 \<and>
                  p_alt p = alt item / ys ! 2 \<and> p_speed p = speed item / ys ! 3)))
       \<and> (length ys < 5 \<longrightarrow>
            (\<exists>e. BuildGPSPoints xlate (pre @ Rec_GPS5 (before @ item # after) # post) skip
                   = Inl e)
          \<and> (\<forall>r. BuildGPSPoints xlate (pre @ [Rec_GPS5 before]) skip = Inr r \<longrightarrow>
                BuildGPSPoints xlate (pre @ Rec_GPS5 (before @ item # after) # post) skip
                  = Inl ZeroDivisionError \<or>
                BuildGPSPoints xlate (pre @ Rec_GPS5 (before @ item # after) # post) skip
                  = Inl TypeError_make))"
proof -
  have ne: "\<not> (lon item = lat item \<and> lat item = alt item \<and> alt item = 0)"
    using assms(1) by (simp add: all_zero_iff)
  have A: "\<exists>p printed'.
               BuildGPSPoints xlate (pre @ [Rec_GPS5 (before @ [item])]) skip
                 = Inr ((pts @ [p], st, name), printed') \<and>
               p_lat p = lat item / ys ! 0 \<and> p_lon p = lon item / ys ! 1 \<and>
               p_alt p = alt item / ys ! 2 \<and> p_speed p = speed item / ys ! 3"
    if h: "BuildGPSPoints xlate (pre @ [Rec_GPS5 before]) skip = Inr ((pts, st, name), printed)"
      and g: "5 \<le> length ys" "\<forall>y \<in> set (take 5 ys). y \<noteq> 0"
        "current_GPSU (GPSU init) pre = Some anchor"
  proof -
    from h obtain s where r: "run xlate skip init (pre @ [Rec_GPS5 before]) = Inr s"
      and res: "pts = points s" "st = start_time s" "name = DVNM s"
      by (auto simp: BuildGPSPoints_Inr)
    from run_before_sample [OF r] assms(2,3) g(3)
    have f: "\<not> (GPSFIX s = 0 \<and> skip)" "GPSU s = Some anchor" "SCAL s = Vec ys"
      by simp_all
    from run_at_last_sample [OF r, of item] obtain n where
      e: "run xlate skip init (pre @ [Rec_GPS5 (before @ [item])]) =
       (case GPS5_item skip item s n of Inl e \<Rightarrow> Inl e | Inr r \<Rightarrow> Inr (fst r))"
      by blast
    have "GPS5_item skip item s n =
      Inr (bump_ok ((if GPSFIX s = 0 then bump_badfix s else s)
             \<lparr>points := points s @ [accepted_point item ys anchor n]\<rparr>), n + 1)"
      using GPS5_item_accept [OF ne f(1,3) g(1,2) f(2)] .
    with e have "run xlate skip init (pre @ [Rec_GPS5 (before @ [item])])
        = Inr (bump_ok ((if GPSFIX s = 0 then bump_badfix s else s)
             \<lparr>points := points s @ [accepted_point item ys anchor n]\<rparr>))"
      by simp
    with res have "\<exists>printed'. BuildGPSPoints xlate (pre @ [Rec_GPS5 (before @ [item])]) skip
        = Inr ((pts @ [accepted_point item ys anchor n], st, name), printed')"
      by (simp add: BuildGPSPoints_def)
    then show ?thesis
      by (intro exI [of _ "accepted_point item ys anchor n"]) (simp add: accepted_point_def)
  qed
  have B: "\<exists>p rest. pts' = pts @ p # rest \<and>
                  p_lat p = lat item / ys ! 0 \<and> p_lon p = lon item / ys ! 1 \<and>
                  p_alt p = alt item / ys ! 2 \<and> p_speed p = speed item / ys ! 3"
    if h: "BuildGPSPoints xlate (pre @ [Rec_GPS5 before]) skip = Inr ((pts, st, name), printed)"
      and g: "5 \<le> length ys" "\<forall>y \<in> set (take 5 ys). y \<noteq> 0"
        "current_GPSU (GPSU init) pre = Some anchor"
      and b: "BuildGPSPoints xlate (pre @ Rec_GPS5 (before @ item # after) # post) skip
                 = Inr ((pts', st', name'), printed')"
    for pts' st' name' printed'
  proof -
    from h obtain s where r: "run xlate skip init (pre @ [Rec_GPS5 before]) = Inr s"
      and res: "pts = points s"
      by (auto simp: BuildGPSPoints_Inr)
    from run_before_sample [OF r] assms(2,3) g(3)
    have f: "\<not> (GPSFIX s = 0 \<and> skip)" "GPSU s = Some anchor" "SCAL s = Vec ys"
      by simp_all
    from b obtain s3 where
      r3: "run xlate skip init (pre @ Rec_GPS5 (before @ item # after) # post) = Inr s3"
      and p3: "pts' = points s3"
      by (auto simp: BuildGPSPoints_Inr)
    from run_at_sample [OF r, of item after post] obtain n where
      e: "run xlate skip init (pre @ Rec_GPS5 (before @ item # after) # post) =
       (case GPS5_item skip item s n of
          Inl e \<Rightarrow> Inl e
        | Inr (s1, n1) \<Rightarrow>
            (case GPS5_loop skip after s1 n1 of
               Inl e \<Rightarrow> Inl e
             | Inr s2 \<Rightarrow> run xlate skip s2 post))"
      by blast
    define s1 where "s1 = bump_ok ((if GPSFIX s = 0 then bump_badfix s else s)
             \<lparr>points := points s @ [accepted_point item ys anchor n]\<rparr>)"
    have i: "GPS5_item skip item s n = Inr (s1, n + 1)"
      unfolding s1_def using GPS5_item_accept [OF ne f(1,3) g(1,2) f(2)] .
    have p1: "points s1 = points s @ [accepted_point item ys anchor n]"
      by (simp add: s1_def)
    from e i r3 obtain s2 where l: "GPS5_loop skip after s1 (n + 1) = Inr s2"
      and k: "run xlate skip s2 post = Inr s3"
      by (auto split: sum.splits)
    from GPS5_loop_points [OF l] obtain q2 where "points s2 = points s1 @ q2" by blast
    moreover from run_points [OF k] obtain q3 where "points s3 = points s2 @ q3" by blast
    ultimately have "pts' = pts @ accepted_point item ys anchor n # (q2 @ q3)"
      using p1 p3 res by simp
    then show ?thesis
      by (intro exI [of _ "accepted_point item ys anchor n"] exI [of _ "q2 @ q3"])
         (simp add: accepted_point_def)
  qed
  have C: "\<exists>e. BuildGPSPoints xlate (pre @ Rec_GPS5 (before @ item # after) # post) skip = Inl e"
    "\<forall>r. BuildGPSPoints xlate (pre @ [Rec_GPS5 before]) skip = Inr r \<longrightarrow>
                BuildGPSPoints xlate (pre @ Rec_GPS5 (before @ item # after) # post) skip
                  = Inl ZeroDivisionError \<or>
                BuildGPSPoints xlate (pre @ Rec_GPS5 (before @ item # after) # post) skip
                  = Inl TypeError_make"
    if g: "length ys < 5"
  proof -
    have R: "run xlate skip init (pre @ Rec_GPS5 (before @ item # after) # post)
               = Inl ZeroDivisionError \<or>
             run xlate skip init (pre @ Rec_GPS5 (before @ item # after) # post)
               = Inl TypeError_make"
      if r: "run xlate skip init (pre @ [Rec_GPS5 before]) = Inr s" for s
    proof -
      from run_before_sample [OF r] assms(2,3)
      have f: "\<not> (GPSFIX s = 0 \<and> skip)" "SCAL s = Vec ys" by simp_all
      from run_at_sample [OF r, of item after post] obtain n where
        e: "run xlate skip init (pre @ Rec_GPS5 (before @ item # after) # post) =
         (case GPS5_item skip item s n of
            Inl e \<Rightarrow> Inl e
          | Inr (s1, n1) \<Rightarrow>
              (case GPS5_loop skip after s1 n1 of
                 Inl e \<Rightarrow> Inl e
               | Inr s2 \<Rightarrow> run xlate skip s2 post))"
        by blast
      from GPS5_item_short_scale [OF ne f g, of n] e show ?thesis by auto
    qed
    show "\<exists>e. BuildGPSPoints xlate (pre @ Rec_GPS5 (before @ item # after) # post) skip = Inl e"
    proof (cases "run xlate skip init (pre @ [Rec_GPS5 before])")
      case (Inl e)
      from run_raises_before_sample [OF Inl, of "item # after" post] show ?thesis
        by (auto simp: BuildGPSPoints_Inl)
    next
      case (Inr s)
      from R [OF Inr] show ?thesis by (auto simp: BuildGPSPoints_Inl)
    qed
    show "\<forall>r. BuildGPSPoints xlate (pre @ [Rec_GPS5 before]) skip = Inr r \<longrightarrow>
                BuildGPSPoints xlate (pre @ Rec_GPS5 (before @ item # after) # post) skip
                  = Inl ZeroDivisionError \<or>
                BuildGPSPoints xlate (pre @ Rec_GPS5 (before @ item # after) # post) skip
                  = Inl TypeError_make"
    proof (intro allI impI)
      fix r
      assume "BuildGPSPoints xlate (pre @ [Rec_GPS5 before]) skip = Inr r"
      then obtain s where "run xlate skip init (pre @ [Rec_GPS5 before]) = Inr s"
        by (cases r) (auto simp: BuildGPSPoints_Inr)
      from R [OF this] show "BuildGPSPoints xlate (pre @ Rec_GPS5 (before @ item # after) # post) skip
                  = Inl ZeroDivisionError \<or>
                BuildGPSPoints xlate (pre @ Rec_GPS5 (before @ item # after) # post) skip
                  = Inl TypeError_make"
        by (simp add: BuildGPSPoints_Inl)
    qed
  qed
  from A B C show ?thesis by blast
qed

theorem C1_scaling_witness:
  "(\<exists>p printed'.
      BuildGPSPoints xlate_example
        [Rec_GPSU 7, Rec_GPSF 3, Rec_SCAL (Vec [10, 10, 10, 10, 10]), Rec_GPS5 [sample_raw]] False
        = Inr (([p], Some 7, ''Unknown''), printed') \<and>
      p_lat p = 10 \<and> p_lon p = 20 \<and> p_alt p = 30 \<and> p_speed p = 4)
   \<and> (BuildGPSPoints xlate_example
        [Rec_GPSU 7, Rec_GPSF 3, Rec_SCAL (Vec [10, 10, 10]), Rec_GPS5 [sample_raw]] False
        = Inl ZeroDivisionError \<or>
      BuildGPSPoints xlate_example
        [Rec_GPSU 7, Rec_GPSF 3, Rec_SCAL (Vec [10, 10, 10]), Rec_GPS5 [sample_raw]] False
        = Inl TypeError_make)"
proof -
  have a: "\<not> all_zero sample_raw"
    by (simp add: all_zero_def sample_raw_def)
  have c: "\<not> (current_GPSF (GPSFIX init) [Rec_GPSU 7, Rec_GPSF 3, Rec_SCAL S] = 0 \<and> False)"
    "current_SCAL (SCAL init) [Rec_GPSU 7, Rec_GPSF 3, Rec_SCAL S] = S"
    "current_GPSU (GPSU init) [Rec_GPSU 7, Rec_GPSF 3, Rec_SCAL S] = Some 7" for S
    by (simp_all add: init_def)
  have b: "BuildGPSPoints xlate_example
       ([Rec_GPSU 7, Rec_GPSF 3, Rec_SCAL S] @ [Rec_GPS5 []]) False
     = Inr (([], Some 7, ''Unknown''),
            [Fix_change 3 ''3D lock'', Stats_report ''Unknown'' 0 0 0 0 0])" for S
    by (simp add: BuildGPSPoints_def init_def GPSF_record_def xlate_example_def print_def
        stats_report_def)
  have v: "lat sample_raw = 100" "lon sample_raw = 200" "alt sample_raw = 300"
    "speed sample_raw = 40"
    by (simp_all add: sample_raw_def)
  note c5 = c [of "Vec [10, 10, 10, 10, 10]"]
  note c3 = c [of "Vec [10, 10, 10]"]
  show ?thesis
    using C1_scaling [OF a c5(1) c5(2), where xlate = xlate_example and before = "[]"
        and after = "[]" and post = "[]"
        and pts = "[]" and st = "Some 7" and name = "''Unknown''"
        and printed = "[Fix_change 3 ''3D lock'', Stats_report ''Unknown'' 0 0 0 0 0]"
        and anchor = 7]
      C1_scaling [OF a c3(1) c3(2), where xlate = xlate_example and before = "[]"
        and after = "[]" and post = "[]"
        and pts = "[]" and st = "Some 7" and name = "''Unknown''"
        and printed = "[Fix_change 3 ''3D lock'', Stats_report ''Unknown'' 0 0 0 0 0]"
        and anchor = 7]
      b c5(3) c3(3) v
    by simp
qed

text \<open>
  C1 as stated fails: after the scale vector \<open>(10,10,10)\<close> the sample
  \<open>(100,200,300,40,50)\<close> gives no point; \<^verbatim>\<open>zip\<close> keeps three quotients and
  \<^verbatim>\<open>GPSData._make\<close> raises on them.
\<close>

theorem C1_counterexample:
  "BuildGPSPoints xlate_example
     [Rec_GPSU 7, Rec_GPSF 3, Rec_SCAL (Vec [10, 10, 10]), Rec_GPS5 [sample_raw]] False
   = Inl TypeError_make"
  by (simp add: BuildGPSPoints_def init_def GPSF_record_def GPS5_item_def scale_values_def
      GPSData_values_def sample_raw_def xlate_example_def print_def)

text \<open>
  C2 at a record whose first sample is rejected. The second sample of the record, at
  position 1 of the repeat group, is emitted with the anchor itself as its timestamp and
  not with the anchor plus \<open>1/18\<close> s (55556 microseconds): \<^verbatim>\<open>sample_count\<close> is advanced only
  after a point was appended, the \<^verbatim>\<open>continue\<close> of a rejected sample skips the increment.
\<close>

theorem C2_sample_count_after_rejected_sample:
  "BuildGPSPoints xlate_example
     [Rec_GPSU 7, Rec_GPSF 3, Rec_SCAL (Vec [10, 10, 10, 10, 10]),
      Rec_GPS5 [sample_zero, sample_raw]] False
   = Inr (([\<lparr>p_lat = 10, p_lon = 20, p_alt = 30, p_time = 7, p_speed = 4\<rparr>], Some 7, ''Unknown''),
          [Fix_change 3 ''3D lock'', Warn_empty, Stats_report ''Unknown'' 1 0 0 1 2])
   \<and> 7 + timedelta (of_nat 1 * t_delta) \<noteq> 7"
proof
  show "BuildGPSPoints xlate_example
     [Rec_GPSU 7, Rec_GPSF 3, Rec_SCAL (Vec [10, 10, 10, 10, 10]),
      Rec_GPS5 [sample_zero, sample_raw]] False
   = Inr (([\<lparr>p_lat = 10, p_lon = 20, p_alt = 30, p_time = 7, p_speed = 4\<rparr>], Some 7, ''Unknown''),
          [Fix_change 3 ''3D lock'', Warn_empty, Stats_report ''Unknown'' 1 0 0 1 2])"
    by (simp add: BuildGPSPoints_def init_def GPSF_record_def GPS5_item_def scale_values_def
      GPSData_values_def sample_raw_def sample_zero_def xlate_example_def print_def
      bump_empty_def bump_ok_def stats_report_def)
  show "7 + timedelta (of_nat 1 * t_delta) \<noteq> 7"
    using timedelta_one_sample by simp
qed

text \<open>
  C3, as the code has it. When the pass completes without raising, \<^verbatim>\<open>BuildGPSPoints\<close> returns
  three things: the emitted points, the session start time (the payload of the first
  \<^verbatim>\<open>GPSU\<close> record, \<^verbatim>\<open>None\<close> when there is none) and the device name (of the last \<^verbatim>\<open>DVNM\<close>
  record, \<^verbatim>\<open>Unknown\<close> when there is none). The counters are not returned: they are the last
  thing printed, in a report whose \<^verbatim>\<open>ok\<close> count is the number of returned points and whose
  total is the sum of the four counters, also when no point was emitted.
\<close>

theorem C3_returned_and_printed:
  "BuildGPSPoints xlate data skip = Inr ((pts, st, dv), printed) \<longrightarrow>
     st = first_GPSU data \<and> dv = last_DVNM ''Unknown'' data \<and>
     (\<exists>bad skp emp. printed \<noteq> [] \<and>
        last printed = Stats_report dv (length pts) bad skp emp (length pts + bad + skp + emp))"
proof
  assume b: "BuildGPSPoints xlate data skip = Inr ((pts, st, dv), printed)"
  then obtain s where r: "run xlate skip init data = Inr s"
    and p: "pts = points s" "st = start_time s" "dv = DVNM s"
           "printed = out s @ [stats_report s]"
    by (auto simp: BuildGPSPoints_def split: sum.splits)
  have "start_time s = first_GPSU data"
    using run_start_time [OF r] by (simp add: init_def)
  moreover have "DVNM s = last_DVNM ''Unknown'' data"
    using run_DVNM [OF r] by (simp add: init_def)
  moreover have "stat_ok (stats s) = length (points s)"
    using run_ok [OF r] by (simp add: init_def)
  ultimately show "st = first_GPSU data \<and> dv = last_DVNM ''Unknown'' data \<and>
     (\<exists>bad skp emp. printed \<noteq> [] \<and>
        last printed = Stats_report dv (length pts) bad skp emp (length pts + bad + skp + emp))"
    using p by (simp add: stats_report_def)
qed

theorem C3_returned_and_printed_witness:
  "BuildGPSPoints xlate_example
     [Rec_DVNM ''HERO'', Rec_GPSU 7, Rec_GPSU 9, Rec_GPS5 [sample_zero]] False
     = Inr (([], Some 7, ''HERO''), [Warn_empty, Stats_report ''HERO'' 0 0 0 1 1])
   \<and> Some 7 = first_GPSU [Rec_DVNM ''HERO'', Rec_GPSU 7, Rec_GPSU 9, Rec_GPS5 [sample_zero]]
   \<and> ''HERO'' = last_DVNM ''Unknown''
        [Rec_DVNM ''HERO'', Rec_GPSU 7, Rec_GPSU 9, Rec_GPS5 [sample_zero]]
   \<and> (\<exists>bad skp emp.
        last [Warn_empty, Stats_report ''HERO'' 0 0 0 1 1]
          = Stats_report ''HERO'' (length ([] :: GPSPoint list)) bad skp emp
              (length ([] :: GPSPoint list) + bad + skp + emp))"
proof -
  have e: "BuildGPSPoints xlate_example
     [Rec_DVNM ''HERO'', Rec_GPSU 7, Rec_GPSU 9, Rec_GPS5 [sample_zero]] False
     = Inr (([], Some 7, ''HERO''), [Warn_empty, Stats_report ''HERO'' 0 0 0 1 1])"
    by (simp add: BuildGPSPoints_def init_def GPS5_item_def sample_zero_def print_def
        bump_empty_def stats_report_def)
  from C3_returned_and_printed [of xlate_example
      "[Rec_DVNM ''HERO'', Rec_GPSU 7, Rec_GPSU 9, Rec_GPS5 [sample_zero]]" False
      "[]" "Some 7" "''HERO''" "[Warn_empty, Stats_report ''HERO'' 0 0 0 1 1]"] e
  show ?thesis by simp
qed

text \<open>
  C3 as stated fails: the returned tuple holds no counters. Two runs without points return
  the same tuple, while their counters differ (no rejected sample, one empty sample); only
  the printed report tells them apart.
\<close>

theorem C3_counterexample:
  "BuildGPSPoints xlate_example [] False
     = Inr (([], None, ''Unknown''), [Stats_report ''Unknown'' 0 0 0 0 0])
   \<and> BuildGPSPoints xlate_example [Rec_GPS5 [sample_zero]] False
     = Inr (([], None, ''Unknown''), [Warn_empty, Stats_report ''Unknown'' 0 0 0 1 1])"
  by (simp add: BuildGPSPoints_def init_def GPS5_item_def sample_zero_def print_def
      bump_empty_def stats_report_def)

text \<open>
  C10, as the code has it. On a record sequence that holds a \<^verbatim>\<open>GPS5\<close> sample which passes the
  empty and bad-fix filters and which no \<^verbatim>\<open>GPSU\<close> record precedes, \<^verbatim>\<open>BuildGPSPoints\<close> raises
  and returns no point. When the pass arrives at the sample, the exception is raised there,
  and by the current scale vector it is: the one of \<^verbatim>\<open>None + timedelta\<close> when the vector has
  at least five components, the first five not zero; \<^verbatim>\<open>ZeroDivisionError\<close> when one of the
  first five components is zero; \<^verbatim>\<open>TypeError\<close> of \<^verbatim>\<open>GPSData._make\<close> when the vector has
  fewer than five components, none zero; \<^verbatim>\<open>TypeError\<close> of \<^verbatim>\<open>list(SCAL)\<close> when the scale is a
  number. When a \<^verbatim>\<open>GPSU\<close> record precedes the first sample that passes the filters, the
  exception of \<^verbatim>\<open>None + timedelta\<close> is never raised.
\<close>

theorem C10_anchor_unset:
  "(\<not> all_zero item \<and> \<not> (current_GPSF (GPSFIX init) pre = 0 \<and> skip) \<and>
    (\<forall>d \<in> set pre. \<not> is_GPSU d) \<longrightarrow>
      (\<exists>e. BuildGPSPoints xlate (pre @ Rec_GPS5 (before @ item # after) # post) skip = Inl e) \<and>
      (\<forall>r. BuildGPSPoints xlate (pre @ [Rec_GPS5 before]) skip = Inr r \<longrightarrow>
         (\<forall>ys. current_SCAL (SCAL init) pre = Vec ys \<and> 5 \<le> length ys \<and>
               (\<forall>y \<in> set (take 5 ys). y \<noteq> 0) \<longrightarrow>
            BuildGPSPoints xlate (pre @ Rec_GPS5 (before @ item # after) # post) skip
              = Inl TypeError_None_add) \<and>
         (\<forall>ys. current_SCAL (SCAL init) pre = Vec ys \<and> (\<exists>y \<in> set (take 5 ys). y = 0) \<longrightarrow>
            BuildGPSPoints xlate (pre @ Rec_GPS5 (before @ item # after) # post) skip
              = Inl ZeroDivisionError) \<and>
         (\<forall>ys. current_SCAL (SCAL init) pre = Vec ys \<and> length ys < 5 \<and>
               (\<forall>y \<in> set ys. y \<noteq> 0) \<longrightarrow>
            BuildGPSPoints xlate (pre @ Rec_GPS5 (before @ item # after) # post) skip
              = Inl TypeError_make) \<and>
         (\<forall>y. current_SCAL (SCAL init) pre = Num y \<longrightarrow>
            BuildGPSPoints xlate (pre @ Rec_GPS5 (before @ item # after) # post) skip
              = Inl TypeError_list)))
   \<and> (no_sample_passes skip (GPSFIX init) pre' \<longrightarrow>
        BuildGPSPoints xlate (pre' @ Rec_GPSU T # post') skip \<noteq> Inl TypeError_None_add)"
proof (intro conjI impI)
  assume h: "\<not> all_zero item \<and> \<not> (current_GPSF (GPSFIX init) pre = 0 \<and> skip) \<and>
    (\<forall>d \<in> set pre. \<not> is_GPSU d)"
  then have ne: "\<not> all_zero item" by simp
  then have ne': "\<not> (lon item = lat item \<and> lat item = alt item \<and> alt item = 0)"
    by (simp add: all_zero_iff)
  from h have u: "current_GPSU (GPSU init) pre = None"
    by (simp add: current_GPSU_none init_def)
  have S: "\<exists>n. GPSU s = None \<and> \<not> (GPSFIX s = 0 \<and> skip) \<and>
             SCAL s = current_SCAL (SCAL init) pre \<and>
             run xlate skip init (pre @ Rec_GPS5 (before @ item # after) # post) =
               (case GPS5_item skip item s n of
                  Inl e \<Rightarrow> Inl e
                | Inr (s1, n1) \<Rightarrow>
                    (case GPS5_loop skip after s1 n1 of
                       Inl e \<Rightarrow> Inl e
                     | Inr s2 \<Rightarrow> run xlate skip s2 post))"
    if r: "run xlate skip init (pre @ [Rec_GPS5 before]) = Inr s" for s
    using run_before_sample [OF r] run_at_sample [OF r, of item after post] h u by auto
  show "\<exists>e. BuildGPSPoints xlate (pre @ Rec_GPS5 (before @ item # after) # post) skip = Inl e"
  proof (cases "run xlate skip init (pre @ [Rec_GPS5 before])")
    case (Inl e)
    from run_raises_before_sample [OF Inl, of "item # after" post] show ?thesis
      by (auto simp: BuildGPSPoints_Inl)
  next
    case (Inr s)
    from S [OF Inr] obtain n where f: "GPSU s = None" "\<not> (GPSFIX s = 0 \<and> skip)"
      and e: "run xlate skip init (pre @ Rec_GPS5 (before @ item # after) # post) =
               (case GPS5_item skip item s n of
                  Inl e \<Rightarrow> Inl e
                | Inr (s1, n1) \<Rightarrow>
                    (case GPS5_loop skip after s1 n1 of
                       Inl e \<Rightarrow> Inl e
                     | Inr s2 \<Rightarrow> run xlate skip s2 post))"
      by blast
    from GPS5_item_no_anchor [OF f(1) ne' f(2), of n] e show ?thesis
      by (auto simp: BuildGPSPoints_Inl)
  qed
  show "\<forall>r. BuildGPSPoints xlate (pre @ [Rec_GPS5 before]) skip = Inr r \<longrightarrow>
         (\<forall>ys. current_SCAL (SCAL init) pre = Vec ys \<and> 5 \<le> length ys \<and>
               (\<forall>y \<in> set (take 5 ys). y \<noteq> 0) \<longrightarrow>
            BuildGPSPoints xlate (pre @ Rec_GPS5 (before @ item # after) # post) skip
              = Inl TypeError_None_add) \<and>
         (\<forall>ys. current_SCAL (SCAL init) pre = Vec ys \<and> (\<exists>y \<in> set (take 5 ys). y = 0) \<longrightarrow>
            BuildGPSPoints xlate (pre @ Rec_GPS5 (before @ item # after) # post) skip
              = Inl ZeroDivisionError) \<and>
         (\<forall>ys. current_SCAL (SCAL init) pre = Vec ys \<and> length ys < 5 \<and>
               (\<forall>y \<in> set ys. y \<noteq> 0) \<longrightarrow>
            BuildGPSPoints xlate (pre @ Rec_GPS5 (before @ item # after) # post) skip
              = Inl TypeError_make) \<and>
         (\<forall>y. current_SCAL (SCAL init) pre = Num y \<longrightarrow>
            BuildGPSPoints xlate (pre @ Rec_GPS5 (before @ item # after) # post) skip
              = Inl TypeError_list)"
  proof (intro allI impI)
    fix r
    assume "BuildGPSPoints xlate (pre @ [Rec_GPS5 before]) skip = Inr r"
    then obtain s where r: "run xlate skip init (pre @ [Rec_GPS5 before]) = Inr s"
      by (cases r) (auto simp: BuildGPSPoints_Inr)
    from S [OF r] obtain n where f: "GPSU s = None" "\<not> (GPSFIX s = 0 \<and> skip)"
      "SCAL s = current_SCAL (SCAL init) pre"
      and e: "run xlate skip init (pre @ Rec_GPS5 (before @ item # after) # post) =
               (case GPS5_item skip item s n of
                  Inl e \<Rightarrow> Inl e
                | Inr (s1, n1) \<Rightarrow>
                    (case GPS5_loop skip after s1 n1 of
                       Inl e \<Rightarrow> Inl e
                     | Inr s2 \<Rightarrow> run xlate skip s2 post))"
      by blast
    let ?B = "BuildGPSPoints xlate (pre @ Rec_GPS5 (before @ item # after) # post) skip"
    have 1: "?B = Inl TypeError_None_add"
      if "current_SCAL (SCAL init) pre = Vec ys \<and> 5 \<le> length ys \<and>
               (\<forall>y \<in> set (take 5 ys). y \<noteq> 0)" for ys
      using GPS5_item_no_anchor_scaled [OF f(1) ne' f(2), of ys n] that f(3) e
      by (simp add: BuildGPSPoints_Inl)
    have 2: "?B = Inl ZeroDivisionError"
      if "current_SCAL (SCAL init) pre = Vec ys \<and> (\<exists>y \<in> set (take 5 ys). y = 0)" for ys
      using GPS5_item_zero_scale [OF ne f(2), of ys n] that f(3) e
      by (simp add: BuildGPSPoints_Inl)
    have 3: "?B = Inl TypeError_make"
      if "current_SCAL (SCAL init) pre = Vec ys \<and> length ys < 5 \<and>
               (\<forall>y \<in> set ys. y \<noteq> 0)" for ys
      using GPS5_item_few_components [OF ne f(2), of ys n] that f(3) e
      by (simp add: BuildGPSPoints_Inl)
    have 4: "?B = Inl TypeError_list"
      if "current_SCAL (SCAL init) pre = Num y" for y
      using GPS5_item_number_scale [OF ne f(2), of y n] that f(3) e
      by (simp add: BuildGPSPoints_Inl)
    from 1 2 3 4 show "(\<forall>ys. current_SCAL (SCAL init) pre = Vec ys \<and> 5 \<le> length ys \<and>
               (\<forall>y \<in> set (take 5 ys). y \<noteq> 0) \<longrightarrow> ?B = Inl TypeError_None_add) \<and>
         (\<forall>ys. current_SCAL (SCAL init) pre = Vec ys \<and> (\<exists>y \<in> set (take 5 ys). y = 0) \<longrightarrow>
            ?B = Inl ZeroDivisionError) \<and>
         (\<forall>ys. current_SCAL (SCAL init) pre = Vec ys \<and> length ys < 5 \<and>
               (\<forall>y \<in> set ys. y \<noteq> 0) \<longrightarrow> ?B = Inl TypeError_make) \<and>
         (\<forall>y. current_SCAL (SCAL init) pre = Num y \<longrightarrow> ?B = Inl TypeError_list)"
      by blast
  qed
next
  assume p: "no_sample_passes skip (GPSFIX init) pre'"
  show "BuildGPSPoints xlate (pre' @ Rec_GPSU T # post') skip \<noteq> Inl TypeError_None_add"
  proof (cases "run xlate skip init pre'")
    case (Inl e)
    with run_no_sample_passes [OF p, of xlate] show ?thesis
      by (simp add: BuildGPSPoints_Inl run_append)
  next
    case (Inr s1)
    obtain s2 where st: "step xlate skip s1 (Rec_GPSU T) = Inr s2" and g: "GPSU s2 \<noteq> None"
      by simp
    have "run xlate skip s2 post' \<noteq> Inl TypeError_None_add"
      using g by (rule run_anchor)
    moreover have "run xlate skip init (pre' @ Rec_GPSU T # post') = run xlate skip s2 post'"
      using Inr st by (simp only: run_append run.simps sum.case)
    ultimately show ?thesis
      by (simp add: BuildGPSPoints_Inl)
  qed
qed

theorem C10_anchor_unset_witness:
  "BuildGPSPoints xlate_example
     [Rec_SCAL (Vec [10, 10, 10, 10, 10]), Rec_GPSF 3, Rec_GPS5 [sample_zero, sample_raw]] False
     = Inl TypeError_None_add
   \<and> BuildGPSPoints xlate_example
     [Rec_SCAL (Vec [10, 0, 10, 10, 10]), Rec_GPSF 3, Rec_GPS5 [sample_zero, sample_raw]] False
     = Inl ZeroDivisionError
   \<and> BuildGPSPoints xlate_example
     [Rec_SCAL (Num 10), Rec_GPSF 3, Rec_GPS5 [sample_zero, sample_raw]] False
     = Inl TypeError_list
   \<and> BuildGPSPoints xlate_example
       ([Rec_SCAL (Vec [10, 10, 10, 10, 10]), Rec_GPSF 3, Rec_GPS5 [sample_zero]]
          @ Rec_GPSU 7 # [Rec_GPS5 [sample_raw]]) False
     \<noteq> Inl TypeError_None_add"
proof -
  have a: "\<not> all_zero sample_raw" "all_zero sample_zero"
    by (simp_all add: all_zero_def sample_raw_def sample_zero_def)
  have c: "\<not> (current_GPSF (GPSFIX init) [Rec_SCAL S, Rec_GPSF 3] = 0 \<and> False)"
    "current_SCAL (SCAL init) [Rec_SCAL S, Rec_GPSF 3] = S"
    "\<forall>d \<in> set [Rec_SCAL S, Rec_GPSF 3]. \<not> is_GPSU d" for S
    by (simp_all add: init_def)
  have b: "BuildGPSPoints xlate_example ([Rec_SCAL S, Rec_GPSF 3] @ [Rec_GPS5 [sample_zero]]) False
     = Inr (([], None, ''Unknown''),
            [Fix_change 3 ''3D lock'', Warn_empty, Stats_report ''Unknown'' 0 0 0 1 1])" for S
    by (simp add: BuildGPSPoints_def init_def GPSF_record_def xlate_example_def print_def
        stats_report_def GPS5_item_def sample_zero_def bump_empty_def)
  have n: "no_sample_passes False (GPSFIX init)
      [Rec_SCAL (Vec [10, 10, 10, 10, 10]), Rec_GPSF 3, Rec_GPS5 [sample_zero]]"
    by (simp add: a)
  note c5 = c [of "Vec [10, 10, 10, 10, 10]"] and b5 = b [of "Vec [10, 10, 10, 10, 10]"]
  note c0 = c [of "Vec [10, 0, 10, 10, 10]"] and b0 = b [of "Vec [10, 0, 10, 10, 10]"]
  note cn = c [of "Num 10"] and bn = b [of "Num 10"]
  have 1: "BuildGPSPoints xlate_example
     ([Rec_SCAL (Vec [10, 10, 10, 10, 10]), Rec_GPSF 3]
        @ Rec_GPS5 ([sample_zero] @ sample_raw # []) # []) False
     = Inl TypeError_None_add"
    using C10_anchor_unset [where item = sample_raw and skip = False
        and pre = "[Rec_SCAL (Vec [10, 10, 10, 10, 10]), Rec_GPSF 3]"
        and xlate = xlate_example and before = "[sample_zero]" and after = "[]" and post = "[]"]
      a(1) c5 b5
    by simp
  have 2: "BuildGPSPoints xlate_example
     ([Rec_SCAL (Vec [10, 0, 10, 10, 10]), Rec_GPSF 3]
        @ Rec_GPS5 ([sample_zero] @ sample_raw # []) # []) False
     = Inl ZeroDivisionError"
    using C10_anchor_unset [where item = sample_raw and skip = False
        and pre = "[Rec_SCAL (Vec [10, 0, 10, 10, 10]), Rec_GPSF 3]"
        and xlate = xlate_example and before = "[sample_zero]" and after = "[]" and post = "[]"]
      a(1) c0 b0
    by simp
  have 3: "BuildGPSPoints xlate_example
     ([Rec_SCAL (Num 10), Rec_GPSF 3]
        @ Rec_GPS5 ([sample_zero] @ sample_raw # []) # []) False
     = Inl TypeError_list"
    using C10_anchor_unset [where item = sample_raw and skip = False
        and pre = "[Rec_SCAL (Num 10), Rec_GPSF 3]"
        and xlate = xlate_example and before = "[sample_zero]" and after = "[]" and post = "[]"]
      a(1) cn bn
    by simp
  have 4: "BuildGPSPoints xlate_example
       ([Rec_SCAL (Vec [10, 10, 10, 10, 10]), Rec_GPSF 3, Rec_GPS5 [sample_zero]]
          @ Rec_GPSU 7 # [Rec_GPS5 [sample_raw]]) False
     \<noteq> Inl TypeError_None_add"
    using C10_anchor_unset [where skip = False and xlate = xlate_example
        and pre' = "[Rec_SCAL (Vec [10, 10, 10, 10, 10]), Rec_GPSF 3, Rec_GPS5 [sample_zero]]"
        and T = 7 and post' = "[Rec_GPS5 [sample_raw]]"] n
    by blast
  from 1 2 3 4 show ?thesis by simp
qed

text \<open>
  C10 as stated fails: with the initial scale vector of three components the sample that
  passes the filters before any \<^verbatim>\<open>GPSU\<close> record fails in \<^verbatim>\<open>GPSData._make\<close>, before the
  timestamp is constructed.
\<close>

theorem C10_counterexample:
  "BuildGPSPoints xlate_example [Rec_GPSF 3, Rec_GPS5 [sample_raw]] False = Inl TypeError_make
   \<and> TypeError_make \<noteq> TypeError_None_add"
  by (simp add: BuildGPSPoints_def init_def GPSF_record_def GPS5_item_def scale_values_def
      GPSData_values_def sample_raw_def xlate_example_def print_def)

text \<open>
  C7. What the \<^verbatim>\<open>TSMP\<close> branch does to its slot: a \<^verbatim>\<open>TSMP\<close> record stores its value when
  the slot holds 0 and otherwise replaces the slot by the record's value minus the slot, so
  after a pass that does not raise the slot is this update folded over the \<^verbatim>\<open>TSMP\<close>
  payloads. What is subtracted is the value stored before, which is the previous record's
  value at the second occurrence only: the branch keeps the delta in the variable that
  should hold the previous reading. The slot is never consumed, as the claim says: leaving
  all \<^verbatim>\<open>TSMP\<close> records out changes neither what \<^verbatim>\<open>BuildGPSPoints\<close> returns or prints nor
  whether it raises.
\<close>

theorem C7_TSMP_slot:
  "(\<forall>s'. run xlate skip s data = Inr s' \<longrightarrow>
       TSMP s' = foldl TSMP_next (TSMP s) (TSMP_values data))
   \<and> BuildGPSPoints xlate (filter (\<lambda>d. \<not> is_TSMP d) data) skip = BuildGPSPoints xlate data skip"
proof
  show "\<forall>s'. run xlate skip s data = Inr s' \<longrightarrow>
       TSMP s' = foldl TSMP_next (TSMP s) (TSMP_values data)"
    using run_TSMP_slot by blast
  have i: "init\<lparr>TSMP := 0\<rparr> = init" by (simp add: init_def)
  have e: "map_sum id (\<lambda>s'. s'\<lparr>TSMP := 0\<rparr>)
      (run xlate skip init (filter (\<lambda>d. \<not> is_TSMP d) data))
   = map_sum id (\<lambda>s'. s'\<lparr>TSMP := 0\<rparr>) (run xlate skip init data)"
    using run_without_TSMP [where xlate = xlate and skip = skip and s = init and v = 0 and data = data]
    by (simp only: i)
  show "BuildGPSPoints xlate (filter (\<lambda>d. \<not> is_TSMP d) data) skip = BuildGPSPoints xlate data skip"
  proof (cases "run xlate skip init data")
    case (Inl err)
    with e show ?thesis
      by (cases "run xlate skip init (filter (\<lambda>d. \<not> is_TSMP d) data)")
         (simp_all add: BuildGPSPoints_def)
  next
    case (Inr s2)
    with e obtain s1 where r: "run xlate skip init (filter (\<lambda>d. \<not> is_TSMP d) data) = Inr s1"
      and q: "s1\<lparr>TSMP := 0\<rparr> = s2\<lparr>TSMP := 0\<rparr>"
      by (cases "run xlate skip init (filter (\<lambda>d. \<not> is_TSMP d) data)") simp_all
    from q have "points s1 = points s2 \<and> start_time s1 = start_time s2 \<and> DVNM s1 = DVNM s2
        \<and> out s1 = out s2 \<and> stats s1 = stats s2"
      by (cases s1, cases s2) simp
    with r Inr show ?thesis by (simp add: BuildGPSPoints_def stats_report_def)
  qed
qed

theorem C7_TSMP_slot_witness:
  "(\<exists>s'. run xlate_example False init [Rec_TSMP 10, Rec_TSMP 30, Rec_TSMP 60] = Inr s' \<and>
        TSMP s' = foldl TSMP_next 0 [10, 30, 60] \<and> foldl TSMP_next 0 [10, 30, 60] = 40)
   \<and> BuildGPSPoints xlate_example [Rec_GPSU 7] False
       = BuildGPSPoints xlate_example [Rec_TSMP 10, Rec_GPSU 7, Rec_TSMP 30] False"
  using C7_TSMP_slot [of xlate_example False init "[Rec_TSMP 10, Rec_TSMP 30, Rec_TSMP 60]"]
    C7_TSMP_slot [of xlate_example False init "[Rec_TSMP 10, Rec_GPSU 7, Rec_TSMP 30]"]
  by (simp add: init_def TSMP_next_def)

text \<open>
  C7 at the third occurrence: after the values 10, 30, 60 the slot holds
  \<open>60 - (30 - 10) = 40\<close>, not the delta \<open>60 - 30\<close> from the previous record's value. And
  after the values 10, 10 the slot holds 0, so that a third value 25 is stored as it is, as
  if it were the first, and not as the delta \<open>25 - 10\<close>.
\<close>

theorem C7_counterexample:
  "map_sum id TSMP (run xlate_example False init [Rec_TSMP 10, Rec_TSMP 30, Rec_TSMP 60])
     = Inr 40
   \<and> (40 :: int) \<noteq> 60 - 30
   \<and> map_sum id TSMP (run xlate_example False init [Rec_TSMP 10, Rec_TSMP 10, Rec_TSMP 25])
     = Inr 25
   \<and> (25 :: int) \<noteq> 25 - 10"
  by (simp add: init_def)

text \<open>
  C9, as the code has it. For a record sequence without \<^verbatim>\<open>GPS5\<close> and \<^verbatim>\<open>GPRI\<close> records, in
  the GPS mode of \<^verbatim>\<open>main_core\<close>: whenever the pass does not raise it returns no points and
  \<^verbatim>\<open>main_core\<close> ends with exit status 0 after its message; and the pass does not raise when
  the sequence has no \<^verbatim>\<open>SYST\<close> record either and every \<^verbatim>\<open>GPSF\<close> code has a label in the
  table.
\<close>

theorem C9_no_gps_records:
  assumes "\<forall>d \<in> set data. \<not> is_GPS5 d \<and> \<not> is_GPRI d"
    and "fourcc_type \<noteq> Some ''GRAV''" "fourcc_type \<noteq> Some ''CORI''"
        "fourcc_type \<noteq> Some ''ACCL''"
  shows "(\<forall>pts st dv printed.
            BuildGPSPoints xlate data skip = Inr ((pts, st, dv), printed) \<longrightarrow>
              pts = [] \<and> main_core xlate fourcc_type skip data = Exit_0)
       \<and> ((\<forall>d \<in> set data. \<not> is_SYST d \<and> GPSF_known xlate d) \<longrightarrow>
            (\<exists>st dv printed. BuildGPSPoints xlate data skip = Inr (([], st, dv), printed)) \<and>
            main_core xlate fourcc_type skip data = Exit_0)"
proof (intro conjI allI impI)
  fix pts st dv printed
  assume b: "BuildGPSPoints xlate data skip = Inr ((pts, st, dv), printed)"
  then obtain s where r: "run xlate skip init data = Inr s" and p: "pts = points s"
    by (auto simp: BuildGPSPoints_def split: sum.splits)
  from run_no_points [OF assms(1) r] p show e: "pts = []" by (simp add: init_def)
  with b assms(2-4) show "main_core xlate fourcc_type skip data = Exit_0"
    by (simp add: main_core_def)
next
  assume h: "\<forall>d \<in> set data. \<not> is_SYST d \<and> GPSF_known xlate d"
  with assms(1) have
    "\<forall>d \<in> set data. \<not> is_GPS5 d \<and> \<not> is_GPRI d \<and> \<not> is_SYST d \<and> GPSF_known xlate d"
    by auto
  from run_returns [OF this] obtain s where r: "run xlate skip init data = Inr s"
    by blast
  from run_no_points [OF assms(1) r] have "points s = []" by (simp add: init_def)
  with r have b: "BuildGPSPoints xlate data skip
      = Inr (([], start_time s, DVNM s), out s @ [stats_report s])"
    by (simp add: BuildGPSPoints_def)
  then show "\<exists>st dv printed. BuildGPSPoints xlate data skip = Inr (([], st, dv), printed)"
    by blast
  from b assms(2-4) show "main_core xlate fourcc_type skip data = Exit_0"
    by (simp add: main_core_def)
qed

theorem C9_no_gps_records_witness:
  "(\<exists>st dv printed.
      BuildGPSPoints xlate_example [Rec_DVNM ''HERO'', Rec_GPSU 7, Rec_GPSF 3, Rec_ACCL [[1, 2, 3]]]
        False = Inr (([], st, dv), printed))
   \<and> main_core xlate_example None False
        [Rec_DVNM ''HERO'', Rec_GPSU 7, Rec_GPSF 3, Rec_ACCL [[1, 2, 3]]] = Exit_0"
  using C9_no_gps_records [of "[Rec_DVNM ''HERO'', Rec_GPSU 7, Rec_GPSF 3, Rec_ACCL [[1, 2, 3]]]"
      None xlate_example False]
  by (simp add: xlate_example_def)

text \<open>
  C9 as stated fails: a sequence without \<^verbatim>\<open>GPS5\<close> and \<^verbatim>\<open>GPRI\<close> records can make the pass
  raise, here the division of a \<^verbatim>\<open>SYST\<close> record by a scale vector of zeros; the exception
  escapes \<^verbatim>\<open>main_core\<close>.
\<close>

theorem C9_counterexample:
  "main_core xlate_example None False
     [Rec_SCAL (Vec [0, 0]), Rec_SYST \<lparr>seconds = 5, miliseconds = 7\<rparr>]
   = Uncaught ZeroDivisionError"
  by (simp add: main_core_def BuildGPSPoints_def init_def SYST_record_def scale_values_def)

text \<open>
  C8, as the code has it. When every division is possible (wherever a record of the
  requested tag holds a tuple with a component, the most recent preceding \<^verbatim>\<open>SCAL\<close> value is
  a number other than 0), each of \<^verbatim>\<open>GetACCLData\<close>, \<^verbatim>\<open>GetGRAVData\<close>, \<^verbatim>\<open>GetCORIData\<close> returns
  exactly one row per decoded tuple of its tag, in input order, each component divided by
  the most recent preceding \<^verbatim>\<open>SCAL\<close> value (1 if there is none), with no timestamp and no
  filtering; and \<^verbatim>\<open>main_core\<close> in the corresponding mode writes these rows, whatever the
  skip policy and the table of fix labels are: the point builder is not involved. When
  some division is not possible the extractor returns no rows: it raises
  \<^verbatim>\<open>ZeroDivisionError\<close> or the \<^verbatim>\<open>TypeError\<close> of \<^verbatim>\<open>float(SCAL)\<close>.
\<close>

theorem C8_single_channel_rows:
  "(divisors_usable sel_ACCL data \<longrightarrow>
      GetACCLData data = Inr (expected_rows sel_ACCL data) \<and>
      main_core xlate (Some ''ACCL'') skip data = Write_csv (expected_rows sel_ACCL data))
   \<and> (divisors_usable sel_GRAV data \<longrightarrow>
      GetGRAVData data = Inr (expected_rows sel_GRAV data) \<and>
      main_core xlate (Some ''GRAV'') skip data = Write_csv (expected_rows sel_GRAV data))
   \<and> (divisors_usable sel_CORI data \<longrightarrow>
      GetCORIData data = Inr (expected_rows sel_CORI data) \<and>
      main_core xlate (Some ''CORI'') skip data = Write_csv (expected_rows sel_CORI data))
   \<and> (\<not> divisors_usable sel_ACCL data \<longrightarrow>
      GetACCLData data = Inl ZeroDivisionError \<or> GetACCLData data = Inl TypeError_float)
   \<and> (\<not> divisors_usable sel_GRAV data \<longrightarrow>
      GetGRAVData data = Inl ZeroDivisionError \<or> GetGRAVData data = Inl TypeError_float)
   \<and> (\<not> divisors_usable sel_CORI data \<longrightarrow>
      GetCORIData data = Inl ZeroDivisionError \<or> GetCORIData data = Inl TypeError_float)"
proof -
  have a: "(divisors_usable sel_ACCL data \<longrightarrow>
            GetACCLData data = Inr (expected_rows sel_ACCL data))
       \<and> (\<not> divisors_usable sel_ACCL data \<longrightarrow>
            GetACCLData data = Inl ZeroDivisionError \<or> GetACCLData data = Inl TypeError_float)"
    unfolding GetACCLData_def by (rule Get_loop_rows) simp
  have g: "(divisors_usable sel_GRAV data \<longrightarrow>
            GetGRAVData data = Inr (expected_rows sel_GRAV data))
       \<and> (\<not> divisors_usable sel_GRAV data \<longrightarrow>
            GetGRAVData data = Inl ZeroDivisionError \<or> GetGRAVData data = Inl TypeError_float)"
    unfolding GetGRAVData_def by (rule Get_loop_rows) simp
  have c: "(divisors_usable sel_CORI data \<longrightarrow>
            GetCORIData data = Inr (expected_rows sel_CORI data))
       \<and> (\<not> divisors_usable sel_CORI data \<longrightarrow>
            GetCORIData data = Inl ZeroDivisionError \<or> GetCORIData data = Inl TypeError_float)"
    unfolding GetCORIData_def by (rule Get_loop_rows) simp
  have m: "main_core xlate (Some ''ACCL'') skip data = of_rows (GetACCLData data)"
    "main_core xlate (Some ''GRAV'') skip data = of_rows (GetGRAVData data)"
    "main_core xlate (Some ''CORI'') skip data = of_rows (GetCORIData data)"
    by (simp_all add: main_core_def)
  from a g c show ?thesis
    by (simp add: m of_rows_def)
qed

theorem C8_single_channel_rows_witness:
  "GetACCLData [Rec_ACCL [[1, 2, 3]], Rec_SCAL (Vec [1, 1, 1, 1, 1]), Rec_GPS5 [],
                Rec_SCAL (Num 2), Rec_GPSF 0, Rec_ACCL [[0, 0, 0], [4, 6, 8]],
                Rec_SCAL (Num 4), Rec_ACCL [[4, 8, 12]], Rec_SCAL (Vec [0, 0])]
     = Inr [[1, 2, 3], [0, 0, 0], [2, 3, 4], [1, 2, 3]]
   \<and> main_core xlate_example (Some ''ACCL'') True
       [Rec_ACCL [[1, 2, 3]], Rec_SCAL (Vec [1, 1, 1, 1, 1]), Rec_GPS5 [],
        Rec_SCAL (Num 2), Rec_GPSF 0, Rec_ACCL [[0, 0, 0], [4, 6, 8]],
        Rec_SCAL (Num 4), Rec_ACCL [[4, 8, 12]], Rec_SCAL (Vec [0, 0])]
     = Write_csv [[1, 2, 3], [0, 0, 0], [2, 3, 4], [1, 2, 3]]
   \<and> (GetACCLData [Rec_SCAL (Vec [1, 1, 1]), Rec_ACCL [[1, 2, 3]]] = Inl ZeroDivisionError \<or>
      GetACCLData [Rec_SCAL (Vec [1, 1, 1]), Rec_ACCL [[1, 2, 3]]] = Inl TypeError_float)"
proof -
  have u: "divisors_usable sel_ACCL
             [Rec_ACCL [[1, 2, 3]], Rec_SCAL (Vec [1, 1, 1, 1, 1]), Rec_GPS5 [],
              Rec_SCAL (Num 2), Rec_GPSF 0, Rec_ACCL [[0, 0, 0], [4, 6, 8]],
              Rec_SCAL (Num 4), Rec_ACCL [[4, 8, 12]], Rec_SCAL (Vec [0, 0])]"
    by code_simp
  have e: "expected_rows sel_ACCL
             [Rec_ACCL [[1, 2, 3]], Rec_SCAL (Vec [1, 1, 1, 1, 1]), Rec_GPS5 [],
              Rec_SCAL (Num 2), Rec_GPSF 0, Rec_ACCL [[0, 0, 0], [4, 6, 8]],
              Rec_SCAL (Num 4), Rec_ACCL [[4, 8, 12]], Rec_SCAL (Vec [0, 0])]
     = [[1, 2, 3], [0, 0, 0], [2, 3, 4], [1, 2, 3]]"
    by code_simp
  have n: "\<not> divisors_usable sel_ACCL [Rec_SCAL (Vec [1, 1, 1]), Rec_ACCL [[1, 2, 3]]]"
    by code_simp
  show ?thesis
    using C8_single_channel_rows [of
        "[Rec_ACCL [[1, 2, 3]], Rec_SCAL (Vec [1, 1, 1, 1, 1]), Rec_GPS5 [],
          Rec_SCAL (Num 2), Rec_GPSF 0, Rec_ACCL [[0, 0, 0], [4, 6, 8]],
          Rec_SCAL (Num 4), Rec_ACCL [[4, 8, 12]], Rec_SCAL (Vec [0, 0])]"
        xlate_example True]
      C8_single_channel_rows [of "[Rec_SCAL (Vec [1, 1, 1]), Rec_ACCL [[1, 2, 3]]]"
        xlate_example True]
      u e n
    by simp
qed

text \<open>
  C8 as stated fails: after a \<^verbatim>\<open>SCAL\<close> record holding 0 the extractor returns no rows, the
  division raises.
\<close>

theorem C8_counterexample:
  "GetACCLData [Rec_SCAL (Num 0), Rec_ACCL [[1, 2, 3]]] = Inl ZeroDivisionError
   \<and> main_core xlate_example (Some ''ACCL'') False [Rec_SCAL (Num 0), Rec_ACCL [[1, 2, 3]]]
       = Uncaught ZeroDivisionError"
  by (simp add: GetACCLData_def main_core_def of_rows_def scaled_data_def)

text \<open>
  C5 at a \<^verbatim>\<open>GPRI\<close> record that passes both filters while the \<^verbatim>\<open>SYST\<close> state has non-zero
  seconds and milliseconds: no point is emitted, the builder raises \<^verbatim>\<open>AttributeError\<close> at
  \<^verbatim>\<open>datetime.fromtimestamp\<close>, since \<^verbatim>\<open>datetime\<close> is the module. With the \<^verbatim>\<open>SYST\<close> state still
  zero the same record is dropped silently, as the claim says.
\<close>

theorem C5_GPRI_point_raises:
  "BuildGPSPoints xlate_example
     [Rec_SCAL (Vec [1, 1, 1, 1, 1]), Rec_SYST \<lparr>seconds = 5, miliseconds = 7\<rparr>, Rec_GPSF 3,
      Rec_GPRI gpri_raw] False
   = Inl AttributeError
   \<and> BuildGPSPoints xlate_example
     [Rec_SCAL (Vec [1, 1, 1, 1, 1]), Rec_GPSF 3, Rec_GPRI gpri_raw] False
   = Inr (([], None, ''Unknown''), [Fix_change 3 ''3D lock'', Stats_report ''Unknown'' 0 0 0 0 0])"
  by (simp add: BuildGPSPoints_def init_def SYST_record_def GPRI_record_def GPSF_record_def
      scale_values_def gpri_raw_def xlate_example_def print_def stats_report_def)

end
